theory Spec2Isabelle
  imports Complex_Main
begin

section \<open>Data model\<close>

text \<open>
  The debt ledger of the server: the controllers
  \<^verbatim>\<open>controllers/splitExpenseController.js\<close> and \<^verbatim>\<open>controllers/debtController.js\<close> and the
  handlers of \<^verbatim>\<open>routes/debtRoutes.js\<close> that change the status of a debt, over the
  Mongoose models \<^verbatim>\<open>models/Debt.js\<close>, \<^verbatim>\<open>models/splitExpenseModel.js\<close>,
  \<^verbatim>\<open>models/Friend.js\<close> and \<^verbatim>\<open>models/Notification.js\<close>.

  Conventions of the embedding.
  \<^item> An ObjectId is a natural number. The id of the authenticated user and the ids read
    from the database are ObjectIds. A request field or a String path that is used as an
    id is a text, see \<open>id_text\<close>. Where the code itself tests \<^verbatim>\<open>ObjectId.isValid\<close> on a
    parameter and only hands it to a query afterwards, the parameter is an optional
    ObjectId and \<open>None\<close> is a text that fails the test; the route parameter
    \<^verbatim>\<open>expenseId\<close> is the text of an ObjectId.
  \<^item> A JavaScript Number is the rational value of a finite IEEE 754 double; \<open>fl\<close> rounds a
    rational to the nearest double. \<^verbatim>\<open>NaN\<close> is \<open>None\<close> of \<open>rat option\<close>. The infinities
    are not values of the model: a decimal beyond the range of the doubles is outside
    the model.
  \<^item> A description is a JavaScript string, the list of its UTF-16 code units. The fixed
    texts of the code (messages, enum values) and names are \<open>string\<close>s.
  \<^item> \<^verbatim>\<open>new Date()\<close> reads the clock \<open>now\<close> of the environment.
  \<^item> The collections of the database are lists in insertion order; a handler takes the
    store and returns its response together with the new store. Reads do not fail.
  \<^item> A path that a schema does not declare is not stored (Mongoose strict mode).
  \<^item> An exception that reaches the outer \<^verbatim>\<open>catch\<close> of a handler is its response with
    status 500.
\<close>

type_synonym oid = nat
type_synonym date = nat
type_synonym ustring = "nat list"

definition utf16 :: "string \<Rightarrow> ustring" where
  \<comment> \<open>the code units of a text of ASCII characters\<close>
  "utf16 s = map of_char s"

text \<open>
  A text that Mongoose casts to an ObjectId. \<open>Canon i\<close> is the spelling that
  \<^verbatim>\<open>ObjectId.prototype.toString\<close> prints for the id \<open>i\<close>, 24 hexadecimal digits in lower
  case; it also stands for the ObjectId \<open>i\<close> itself wherever the code calls \<^verbatim>\<open>toString()\<close>
  on it. \<open>Alias i k\<close> is any other text that is cast to \<open>i\<close>, for instance the same digits
  in upper case; the number \<open>k\<close> tells such texts apart. Two values are the same text
  exactly when they are equal. A non-empty text that is not cast to any ObjectId is
  \<open>KeyText\<close>.
\<close>

datatype id_text = Canon oid | Alias oid nat

fun castId :: "id_text \<Rightarrow> oid" where
  "castId (Canon i) = i"
| "castId (Alias i k) = i"

datatype id_key = KeyId id_text | KeyText

datatype thrown = CastError

datatype debt_status = Pending | Paid | Cancelled | Disputed
datatype debt_type = Manual | Split | Loan

record debt_metadata =
  splitExpenseId :: oid
  category :: string
  originalAmount :: rat
  md_splitType :: string
  md_notes :: ustring

record debt =
  debt_id :: oid
  creditor :: oid
  debtor :: oid
  amount :: rat
  description :: ustring
  status :: debt_status
  dtype :: debt_type
  relatedExpenseId :: "oid option"
  dueDate :: "date option"
  paidAt :: "date option"
  paymentMethod :: "string option"
  metadata :: "debt_metadata option"
  createdAt :: date
  updatedAt :: date

record user =
  user_id :: oid
  user_name :: string
  user_email :: string

text \<open>
  A Friend document (\<^verbatim>\<open>models/Friend.js\<close>) as
  \<^verbatim>\<open>Friend.findOne(...).populate('friendUser')\<close> hands it to the controller. The three
  shapes of \<^verbatim>\<open>friendUser\<close> that the controller distinguishes are a datatype: a populated
  object with an \<^verbatim>\<open>_id\<close>, a bare string, or nothing, which is what \<^verbatim>\<open>populate\<close> leaves when
  the referenced user no longer exists.

  The path \<^verbatim>\<open>userId\<close> of the schema is a String, the public user id of the friend (as in
  \<^verbatim>\<open>name@myexpense\<close>) or, for some documents, the text of an ObjectId. It is absent or
  empty, a text that Mongoose casts to an ObjectId, or any other text.
\<close>

datatype friend_ref = Populated oid | BareString id_text | NoRef

datatype userid_text = NoText | CastableText id_text | OtherText

record friend =
  friend_id :: oid
  friend_owner :: oid
  friend_status :: string
  friendUser :: friend_ref
  friend_userId :: userid_text
  friend_name :: string
  friend_email :: string

text \<open>
  A split expense as \<^verbatim>\<open>models/splitExpenseModel.js\<close> stores it. The schema declares
  \<^verbatim>\<open>createdBy\<close>, \<^verbatim>\<open>paidBy\<close>, \<^verbatim>\<open>description\<close>, \<^verbatim>\<open>totalAmount\<close> and \<^verbatim>\<open>splits\<close>, and for
  a split \<^verbatim>\<open>friendId\<close> and \<^verbatim>\<open>amount\<close>. The paths \<^verbatim>\<open>email\<close>, \<^verbatim>\<open>splitType\<close>, \<^verbatim>\<open>status\<close>
  and \<^verbatim>\<open>settledDate\<close> that the controller assigns are not declared and so not stored.
\<close>

record split_entry =
  sp_friendId :: "oid option"
  sp_amount :: "rat option"

record split_expense =
  exp_id :: oid
  exp_description :: ustring
  totalAmount :: rat
  paidBy :: oid
  createdBy :: oid
  splits :: "split_entry list"

text \<open>
  A notification. Title, message text and the data object are formatted strings of the
  fields kept here (\<open>n_share\<close> is \<^verbatim>\<open>data.amount\<close>, \<open>n_paidBy\<close> is \<^verbatim>\<open>data.paidBy\<close>).
\<close>

record notification =
  n_userId :: oid
  n_senderId :: oid
  n_type :: string
  n_relatedId :: oid
  n_relatedModel :: string
  n_share :: "rat option"
  n_paidBy :: string
  n_read :: bool

record store =
  users :: "user list"
  friends :: "friend list"
  expenses :: "split_expense list"
  debts :: "debt list"
  notifications :: "notification list"
  nextId :: oid

text \<open>
  The environment of a request: the clock, and which writes of a new debt record or of a
  notification the storage layer refuses (a transient storage error). The writes whose
  failure the controller catches per participant are the ones that can be made to fail.
\<close>

record env =
  now :: date
  debtWriteFails :: "debt \<Rightarrow> bool"
  notifWriteFails :: "notification \<Rightarrow> bool"

text \<open>A response is the HTTP status with either the error message or the payload.\<close>

datatype 'a response = Fail nat string | Success nat 'a

fun httpStatus :: "'a response \<Rightarrow> nat" where
  "httpStatus (Fail c m) = c"
| "httpStatus (Success c x) = c"

section \<open>JavaScript values\<close>

subsection \<open>Numbers\<close>

text \<open>
  Rounding to the nearest double (IEEE 754 binary64, round to nearest, ties to even). For
  \<open>x > 0\<close>, \<open>ilog2 x\<close> is the exponent \<open>e\<close> with \<open>2 ^ e \<le> x < 2 ^ (e + 1)\<close>. The doubles
  around \<open>x\<close> are the multiples of \<open>quantum x\<close>, which is \<open>2 ^ (e - 52)\<close> for a normal number
  and \<open>2 ^ (- 1074)\<close> in the subnormal range; \<open>fl x\<close> is the multiple nearest to \<open>x\<close>.
\<close>

function bits :: "int \<Rightarrow> int" where
  \<comment> \<open>the number of binary digits of a positive integer\<close>
  "bits n = (if n \<le> 0 then 0 else 1 + bits (n div 2))"
  by pat_completeness auto
termination by (relation "measure nat") auto

declare bits.simps [simp del]

definition pow2 :: "int \<Rightarrow> rat" where
  "pow2 e = (if 0 \<le> e then 2 ^ nat e else 1 / 2 ^ nat (- e))"

definition ilog2 :: "rat \<Rightarrow> int" where
  "ilog2 x = (if 1 \<le> x then bits \<lfloor>x\<rfloor> - 1 else - bits (\<lceil>1 / x\<rceil> - 1))"

definition quantum :: "rat \<Rightarrow> rat" where
  "quantum x = pow2 (max (ilog2 x) (- 1022) - 52)"

definition roundEven :: "rat \<Rightarrow> int" where
  \<comment> \<open>the nearest integer, the even one at a tie\<close>
  "roundEven m =
     (let f = \<lfloor>m\<rfloor>; r = m - of_int f
      in if r < 1 / 2 then f else if 1 / 2 < r then f + 1 else if even f then f else f + 1)"

definition fl :: "rat \<Rightarrow> rat" where
  "fl x = (if x = 0 then 0
           else if 0 < x then of_int (roundEven (x / quantum x)) * quantum x
           else - (of_int (roundEven (- x / quantum (- x))) * quantum (- x)))"

definition jsDivide :: "rat \<Rightarrow> rat \<Rightarrow> rat" where
  \<comment> \<open>the operator \<^verbatim>\<open>/\<close> on two Numbers, the divisor not zero\<close>
  "jsDivide x y = fl (x / y)"

definition toFixed2 :: "rat \<Rightarrow> rat" where
  \<comment> \<open>the decimal that the string \<^verbatim>\<open>x.toFixed(2)\<close> spells: the nearest multiple of 0.01 to
      the exact value of the Number, the larger one at a tie, computed on the absolute
      value\<close>
  "toFixed2 x =
     (if x < 0 then - (of_int \<lfloor>(- x) * 100 + 1 / 2\<rfloor> / 100)
      else of_int \<lfloor>x * 100 + 1 / 2\<rfloor> / 100)"

text \<open>
  A value of a JSON request body where the code expects a number: a missing or empty
  value (falsy, and \<^verbatim>\<open>parseFloat\<close> gives \<^verbatim>\<open>NaN\<close>); a non-empty value that \<^verbatim>\<open>parseFloat\<close>
  maps to \<^verbatim>\<open>NaN\<close>; a JSON number, written as the decimal given (falsy when it reads as
  zero); or a non-empty string of which \<^verbatim>\<open>parseFloat\<close> reads the decimal given (never
  falsy). Reading a decimal gives the nearest double.
\<close>

datatype js_value = JsAbsent | JsNotNumeric | JsNum rat | JsNumText rat

fun parseFloat :: "js_value \<Rightarrow> rat option" where
  "parseFloat JsAbsent = None"
| "parseFloat JsNotNumeric = None"
| "parseFloat (JsNum r) = Some (fl r)"
| "parseFloat (JsNumText r) = Some (fl r)"

fun falsy :: "js_value \<Rightarrow> bool" where
  "falsy JsAbsent = True"
| "falsy JsNotNumeric = False"
| "falsy (JsNum r) = (fl r = 0)"
| "falsy (JsNumText r) = False"

subsection \<open>Strings\<close>

definition falsyStr :: "'a list option \<Rightarrow> bool" where
  \<comment> \<open>a missing value or the empty string\<close>
  "falsyStr s = (case s of None \<Rightarrow> True | Some t \<Rightarrow> t = [])"

definition isSpace :: "nat \<Rightarrow> bool" where
  \<comment> \<open>the code units that \<^verbatim>\<open>String.prototype.trim\<close> removes: the white space and the line
      terminators of ECMAScript\<close>
  "isSpace c =
     (c \<in> set [0x0009, 0x000A, 0x000B, 0x000C, 0x000D, 0x0020, 0x00A0, 0x1680,
               0x2028, 0x2029, 0x202F, 0x205F, 0x3000, 0xFEFF] \<or>
      (0x2000 \<le> c \<and> c \<le> 0x200A))"

definition trim :: "ustring \<Rightarrow> ustring" where
  "trim s = rev (dropWhile isSpace (rev (dropWhile isSpace s)))"

section \<open>Debt model\<close>

text \<open>
  The object handed to \<^verbatim>\<open>new Debt(...)\<close>. \<^verbatim>\<open>save()\<close> runs the validators of the schema
  (\<^verbatim>\<open>models/Debt.js\<close>): the amount is required, at least 0.01 and greater than 0; the
  description is required and, trimmed, at most 500 code units long. The schema has no
  validator that compares creditor and debtor.
\<close>

record debt_data =
  dd_creditor :: oid
  dd_debtor :: oid
  dd_amount :: "rat option"
  dd_description :: "ustring option"
  dd_status :: debt_status
  dd_type :: debt_type
  dd_relatedExpenseId :: "oid option"
  dd_metadata :: "debt_metadata option"
  dd_dueDate :: "date option"

definition amountValid :: "rat option \<Rightarrow> bool" where
  "amountValid a = (case a of None \<Rightarrow> False | Some x \<Rightarrow> fl (1 / 100) \<le> x \<and> 0 < x)"

definition descriptionValid :: "ustring option \<Rightarrow> bool" where
  "descriptionValid s =
     (case s of None \<Rightarrow> False | Some t \<Rightarrow> trim t \<noteq> [] \<and> length (trim t) \<le> 500)"

definition debtDataValid :: "debt_data \<Rightarrow> bool" where
  "debtDataValid dd = (amountValid (dd_amount dd) \<and> descriptionValid (dd_description dd))"

definition newDebt :: "env \<Rightarrow> store \<Rightarrow> debt_data \<Rightarrow> (string + debt) \<times> store" where
  \<comment> \<open>\<^verbatim>\<open>new Debt(dd).save()\<close>: \<open>Inl\<close> is the message of the error that \<^verbatim>\<open>save()\<close> throws\<close>
  "newDebt ev st dd =
    (case dd_amount dd of
       None \<Rightarrow> (Inl ''Debt validation failed: amount'', st)
     | Some a \<Rightarrow>
        if \<not> amountValid (Some a) then (Inl ''Debt validation failed: amount'', st)
        else
          (case dd_description dd of
             None \<Rightarrow> (Inl ''Debt validation failed: description'', st)
           | Some s \<Rightarrow>
              if \<not> descriptionValid (Some s)
              then (Inl ''Debt validation failed: description'', st)
              else
                let d = \<lparr>debt_id = nextId st, creditor = dd_creditor dd, debtor = dd_debtor dd,
                         amount = a, description = trim s, status = dd_status dd,
                         dtype = dd_type dd, relatedExpenseId = dd_relatedExpenseId dd,
                         dueDate = dd_dueDate dd, paidAt = None, paymentMethod = None,
                         metadata = dd_metadata dd, createdAt = now ev, updatedAt = now ev\<rparr>
                in if debtWriteFails ev d then (Inl ''storage error'', st)
                   else (Inr d, st\<lparr>debts := debts st @ [d], nextId := Suc (nextId st)\<rparr>)))"

section \<open>Notification model\<close>

text \<open>
  The enum validators of \<^verbatim>\<open>models/Notification.js\<close> on the paths \<^verbatim>\<open>type\<close> and
  \<^verbatim>\<open>relatedModel\<close>. The required paths are always given by the callers below.
\<close>

definition notificationTypes :: "string list" where
  "notificationTypes =
     [''expense_created'', ''expense_updated'', ''expense_deleted'', ''payment_received'',
      ''payment_reminder'', ''debt_settled'', ''debt_created'', ''debt_cancelled'',
      ''friend_request'', ''friend_accepted'', ''group_invite'', ''settlement_request'',
      ''comment_added'', ''mention'']"

definition relatedModels :: "string list" where
  "relatedModels = [''SplitExpense'', ''Group'', ''User'', ''Settlement'', ''Comment'']"

definition notificationValid :: "notification \<Rightarrow> bool" where
  "notificationValid n =
     (n_type n \<in> set notificationTypes \<and> n_relatedModel n \<in> set relatedModels)"

definition notifRejected :: "env \<Rightarrow> notification \<Rightarrow> bool" where
  \<comment> \<open>\<^verbatim>\<open>save()\<close> of a new notification throws\<close>
  "notifRejected ev n = (\<not> notificationValid n \<or> notifWriteFails ev n)"

section \<open>Debt controller\<close>

definition findDebt :: "store \<Rightarrow> oid \<Rightarrow> debt option" where
  "findDebt st i = find (\<lambda>d. debt_id d = i) (debts st)"

definition findUser :: "store \<Rightarrow> oid \<Rightarrow> user option" where
  "findUser st i = find (\<lambda>u. user_id u = i) (users st)"

definition saveDebt :: "store \<Rightarrow> debt \<Rightarrow> store" where
  \<comment> \<open>\<^verbatim>\<open>debt.save()\<close> of a document that was read from the collection\<close>
  "saveDebt st d' = st\<lparr>debts := map (\<lambda>d. if debt_id d = debt_id d' then d' else d) (debts st)\<rparr>"

definition paymentMethods :: "string list" where
  \<comment> \<open>the enum of the path \<^verbatim>\<open>paymentMethod\<close>\<close>
  "paymentMethods = [''cash'', ''bank_transfer'', ''upi'', ''credit_card'', ''other'']"

definition paymentMethodValid :: "debt \<Rightarrow> bool" where
  "paymentMethodValid d =
     (case paymentMethod d of None \<Rightarrow> True | Some m \<Rightarrow> m \<in> set paymentMethods)"

text \<open>
  \<^verbatim>\<open>markDebtAsPaid\<close> of the controller. The payment method is the text of the request
  body, if any. \<^verbatim>\<open>save()\<close> validates the paths that were modified; \<^verbatim>\<open>status\<close> and
  \<^verbatim>\<open>paidAt\<close> are valid, and a payment method outside the enum of the schema makes
  \<^verbatim>\<open>save()\<close> throw before anything is written.
\<close>

definition markDebtAsPaid ::
  "env \<Rightarrow> store \<Rightarrow> oid \<Rightarrow> oid option \<Rightarrow> string option \<Rightarrow> debt response \<times> store" where
  "markDebtAsPaid ev st userId debtId pm =
    (case debtId of
       None \<Rightarrow> (Fail 400 ''Invalid debt ID format'', st)
     | Some i \<Rightarrow>
        (case findDebt st i of
           None \<Rightarrow> (Fail 404 ''Debt not found'', st)
         | Some d \<Rightarrow>
            if debtor d \<noteq> userId
            then (Fail 403 ''You are not authorized to mark this debt as paid'', st)
            else if status d = Paid
            then (Fail 400 ''This debt is already marked as paid'', st)
            else
              let d1 = d\<lparr>status := Paid, paidAt := Some (now ev)\<rparr>;
                  d2 = (if falsyStr pm then d1 else d1\<lparr>paymentMethod := pm\<rparr>)
              in if \<not> falsyStr pm \<and> \<not> paymentMethodValid d2
                 then (Fail 500 ''Failed to mark debt as paid'', st)
                 else
                   let d3 = d2\<lparr>updatedAt := now ev\<rparr>
                   in (Success 200 d3, saveDebt st d3)))"

record manual_req =
  mr_debtorId :: "oid option"
  mr_amount :: js_value
  mr_description :: "ustring option"
  mr_dueDate :: "date option"

definition createManualDebt ::
  "env \<Rightarrow> store \<Rightarrow> oid \<Rightarrow> manual_req \<Rightarrow> debt response \<times> store" where
  "createManualDebt ev st creditorId req =
    (case mr_debtorId req of
       None \<Rightarrow> (Fail 400 ''Invalid debtor ID'', st)
     | Some debtorId \<Rightarrow>
        let debtData = \<lparr>dd_creditor = creditorId, dd_debtor = debtorId,
                         dd_amount = parseFloat (mr_amount req),
                         dd_description = mr_description req,
                         dd_status = Pending, dd_type = Manual,
                         dd_relatedExpenseId = None, dd_metadata = None,
                         dd_dueDate = mr_dueDate req\<rparr>
        in (case newDebt ev st debtData of
              (Inl e, st') \<Rightarrow> (Fail 500 ''Failed to create debt'', st')
            | (Inr d, st') \<Rightarrow> (Success 201 d, st')))"

section \<open>Debt routes\<close>

text \<open>
  The two handlers of \<^verbatim>\<open>routes/debtRoutes.js\<close> by which the creditor changes the status
  of a debt by hand: \<^verbatim>\<open>PATCH /:id/settle\<close> and \<^verbatim>\<open>DELETE /:id\<close>. Both read the debt with
  its creditor populated, so \<^verbatim>\<open>debt.creditor._id\<close> throws when the creditor's account no
  longer exists. After the write each handler tries to create a notification for the
  debtor, in a \<^verbatim>\<open>try\<close> of its own; \<^verbatim>\<open>debt.debtor._id\<close> throws there when the debtor's
  account no longer exists.
\<close>

definition tryNotify :: "env \<Rightarrow> store \<Rightarrow> oid \<Rightarrow> debt \<Rightarrow> string \<Rightarrow> store" where
  "tryNotify ev st userId d ntype =
     (case findUser st (debtor d) of
        None \<Rightarrow> st
      | Some u \<Rightarrow>
         let n = \<lparr>n_userId = debtor d, n_senderId = userId, n_type = ntype,
                  n_relatedId = debt_id d, n_relatedModel = ''Debt'',
                  n_share = Some (amount d), n_paidBy = [], n_read = False\<rparr>
         in if notifRejected ev n then st
            else st\<lparr>notifications := notifications st @ [n]\<rparr>)"

definition settleDebt ::
  "env \<Rightarrow> store \<Rightarrow> oid \<Rightarrow> oid option \<Rightarrow> debt response \<times> store" where
  "settleDebt ev st userId debtId =
    (case debtId of
       None \<Rightarrow> (Fail 400 ''Invalid debt ID format'', st)
     | Some i \<Rightarrow>
        (case findDebt st i of
           None \<Rightarrow> (Fail 404 ''Debt not found'', st)
         | Some d \<Rightarrow>
            (case findUser st (creditor d) of
               None \<Rightarrow> (Fail 500 ''Failed to mark debt as paid'', st)
             | Some c \<Rightarrow>
                if creditor d \<noteq> userId
                then (Fail 403 ''Only the creditor can mark this debt as paid'', st)
                else if status d = Paid
                then (Fail 400 ''Debt is already paid'', st)
                else
                  let d1 = d\<lparr>status := Paid, paidAt := Some (now ev)\<rparr>;
                      d2 = d1\<lparr>updatedAt := now ev\<rparr>;
                      st1 = saveDebt st d2
                  in (Success 200 d2, tryNotify ev st1 userId d2 ''payment_received''))))"

definition cancelDebt ::
  "env \<Rightarrow> store \<Rightarrow> oid \<Rightarrow> oid option \<Rightarrow> unit response \<times> store" where
  "cancelDebt ev st userId debtId =
    (case debtId of
       None \<Rightarrow> (Fail 400 ''Invalid debt ID format'', st)
     | Some i \<Rightarrow>
        (case findDebt st i of
           None \<Rightarrow> (Fail 404 ''Debt not found'', st)
         | Some d \<Rightarrow>
            (case findUser st (creditor d) of
               None \<Rightarrow> (Fail 500 ''Failed to cancel debt'', st)
             | Some c \<Rightarrow>
                if creditor d \<noteq> userId
                then (Fail 403 ''Only the creditor can cancel this debt'', st)
                else
                  let d1 = d\<lparr>status := Cancelled\<rparr>;
                      d2 = d1\<lparr>updatedAt := now ev\<rparr>;
                      st1 = saveDebt st d2
                  in (Success 200 (), tryNotify ev st1 userId d2 ''debt_cancelled''))))"

section \<open>Split expense controller\<close>

text \<open>
  The body of a creation request. \<^verbatim>\<open>paidBy\<close> is missing or empty, the text \<^verbatim>\<open>'self'\<close>, a
  text that is cast to an ObjectId, or any other text. The \<^verbatim>\<open>friendId\<close> of a split is
  missing or empty, or a text.
\<close>

datatype paid_by = PayerAbsent | PayerSelf | PayerId id_text | PayerOther

record req_split =
  rs_friendId :: "id_key option"
  rs_email :: "string option"
  rs_amount :: js_value

record create_req =
  rq_description :: "ustring option"
  rq_totalAmount :: js_value
  rq_paidBy :: paid_by
  rq_splits :: "req_split list option"
  rq_splitType :: "string option"

text \<open>
  An element of \<^verbatim>\<open>validatedSplits\<close>. \<open>vs_friendId\<close> is the ObjectId that the \<^verbatim>\<open>friendId\<close> of
  the request is cast to, \<open>vs_userId\<close> is \<^verbatim>\<open>actualUserId\<close>, an ObjectId or a text. The
  \<^verbatim>\<open>name\<close> of an element is read by the log lines only and is left out.
\<close>

record validated_split =
  vs_friendId :: "oid option"
  vs_userId :: "id_text option"
  vs_amount :: "rat option"
  vs_email :: "string option"

definition findFriend :: "store \<Rightarrow> oid \<Rightarrow> oid \<Rightarrow> friend option" where
  \<comment> \<open>\<^verbatim>\<open>Friend.findOne({ _id: split.friendId, user: userId, status: 'active' })\<close>\<close>
  "findFriend st userId fid =
     find (\<lambda>f. friend_id f = fid \<and> friend_owner f = userId \<and> friend_status f = ''active'')
       (friends st)"

text \<open>
  What \<^verbatim>\<open>actualUserId\<close> holds after methods 1 to 3. \<^verbatim>\<open>User.findById\<close> of a text that is
  not cast to an ObjectId rejects with a \<^verbatim>\<open>CastError\<close>; nothing in the loop catches it,
  so it ends the request in the outer \<^verbatim>\<open>catch\<close>.
\<close>

definition actualUserId :: "oid \<Rightarrow> friend \<Rightarrow> id_key option" where
  \<comment> \<open>methods 1 to 3 of the controller, and the branch on \<^verbatim>\<open>friend.user\<close> that skips\<close>
  "actualUserId userId f =
     (case friendUser f of
        Populated u \<Rightarrow> Some (KeyId (Canon u))
      | BareString t \<Rightarrow> Some (KeyId t)
      | NoRef \<Rightarrow>
         (case friend_userId f of
            CastableText t \<Rightarrow> Some (KeyId t)
          | OtherText \<Rightarrow> Some KeyText
          | NoText \<Rightarrow> if friend_owner f \<noteq> userId then None else None))"

definition resolveFriend ::
  "store \<Rightarrow> oid \<Rightarrow> req_split \<Rightarrow> oid \<Rightarrow> thrown + validated_split option" where
  \<comment> \<open>one split whose \<^verbatim>\<open>friendId\<close> is cast to \<open>fid\<close>: \<open>Inr None\<close> is \<^verbatim>\<open>continue\<close>\<close>
  "resolveFriend st userId split fid =
     (case findFriend st userId fid of
        None \<Rightarrow> Inr None
      | Some f \<Rightarrow>
         (case actualUserId userId f of
            None \<Rightarrow> Inr None
          | Some KeyText \<Rightarrow> Inl CastError
          | Some (KeyId a) \<Rightarrow>
             (case findUser st (castId a) of
                None \<Rightarrow> Inr None
              | Some userExists \<Rightarrow>
                 Inr (Some \<lparr>vs_friendId = Some fid, vs_userId = Some a,
                            vs_amount = parseFloat (rs_amount split),
                            vs_email = Some (if friend_email f \<noteq> [] then friend_email f
                                             else user_email userExists)\<rparr>))))"

definition push :: "'a \<Rightarrow> thrown + 'a list \<Rightarrow> thrown + 'a list" where
  \<comment> \<open>\<^verbatim>\<open>validatedSplits.push(v)\<close>, then the rest of the loop\<close>
  "push v r = (case r of Inl e \<Rightarrow> Inl e | Inr vs \<Rightarrow> Inr (v # vs))"

fun validateSplits :: "store \<Rightarrow> oid \<Rightarrow> req_split list \<Rightarrow> thrown + validated_split list" where
  "validateSplits st userId [] = Inr []"
| "validateSplits st userId (split # rest) =
     (case rs_friendId split of
        Some KeyText \<Rightarrow> Inl CastError
      | Some (KeyId t) \<Rightarrow>
         (case resolveFriend st userId split (castId t) of
            Inl e \<Rightarrow> Inl e
          | Inr None \<Rightarrow> validateSplits st userId rest
          | Inr (Some v) \<Rightarrow> push v (validateSplits st userId rest))
      | None \<Rightarrow>
         if \<not> falsyStr (rs_email split)
         then push \<lparr>vs_friendId = None, vs_userId = None,
                     vs_amount = parseFloat (rs_amount split), vs_email = rs_email split\<rparr>
                (validateSplits st userId rest)
         else validateSplits st userId rest)"

definition equalSplit :: "rat \<Rightarrow> validated_split list \<Rightarrow> validated_split list" where
  \<comment> \<open>\<^verbatim>\<open>parseFloat((numTotalAmount / totalPeople).toFixed(2))\<close> for every split\<close>
  "equalSplit numTotalAmount vs =
     (let totalPeople = length vs + 1;
          amountPerPerson = fl (toFixed2 (jsDivide numTotalAmount (of_nat totalPeople)))
      in map (\<lambda>split. split\<lparr>vs_amount := Some amountPerPerson\<rparr>) vs)"

text \<open>
  The validators of \<^verbatim>\<open>models/splitExpenseModel.js\<close> that \<^verbatim>\<open>expense.save()\<close> runs: the
  description is required (an empty string is missing), the total is at least 0, there is
  at least one split, and every split has its required \<^verbatim>\<open>friendId\<close> and a required
  \<^verbatim>\<open>amount\<close> of at least 0. The schema has no validator on the sum of the amounts.
\<close>

definition splitValid :: "split_entry \<Rightarrow> bool" where
  "splitValid s =
     (case sp_friendId s of
        None \<Rightarrow> False
      | Some f \<Rightarrow> (case sp_amount s of None \<Rightarrow> False | Some a \<Rightarrow> 0 \<le> a))"

definition expenseValid :: "split_expense \<Rightarrow> bool" where
  "expenseValid e =
     (exp_description e \<noteq> [] \<and> 0 \<le> totalAmount e \<and> splits e \<noteq> [] \<and>
      list_all splitValid (splits e))"

definition requestIncomplete :: "create_req \<Rightarrow> bool" where
  \<comment> \<open>\<^verbatim>\<open>!description || !totalAmount || !splits || splits.length === 0\<close>\<close>
  "requestIncomplete req =
     (falsyStr (rq_description req) \<or> falsy (rq_totalAmount req) \<or>
      (case rq_splits req of None \<Rightarrow> True | Some ss \<Rightarrow> ss = []))"

definition splitTypeOf :: "create_req \<Rightarrow> string" where
  "splitTypeOf req = (case rq_splitType req of None \<Rightarrow> ''equal'' | Some t \<Rightarrow> t)"

definition paidByUserIdOf :: "oid \<Rightarrow> create_req \<Rightarrow> id_key" where
  \<comment> \<open>\<^verbatim>\<open>paidBy && paidBy !== 'self' ? paidBy : userId\<close>\<close>
  "paidByUserIdOf userId req =
     (case rq_paidBy req of
        PayerAbsent \<Rightarrow> KeyId (Canon userId)
      | PayerSelf \<Rightarrow> KeyId (Canon userId)
      | PayerId t \<Rightarrow> KeyId t
      | PayerOther \<Rightarrow> KeyText)"

definition payerNameOf :: "store \<Rightarrow> oid \<Rightarrow> string" where
  \<comment> \<open>\<^verbatim>\<open>payer?.name || 'Someone'\<close>\<close>
  "payerNameOf st p =
     (case findUser st p of
        None \<Rightarrow> ''Someone''
      | Some u \<Rightarrow> if user_name u = [] then ''Someone'' else user_name u)"

text \<open>
  Lines 14 to 172 of \<^verbatim>\<open>createSplitExpense\<close>: the checks of the request, the resolution of
  the participants, the equal split, the payer, and the expense document as it is handed
  to \<^verbatim>\<open>save()\<close>. The result is the early response (status 500 when the resolution or
  \<^verbatim>\<open>User.findById(paidByUserId)\<close> threw), or the document with the validated splits and
  \<^verbatim>\<open>paidByUserId\<close>.
\<close>

definition prepareExpense ::
  "store \<Rightarrow> oid \<Rightarrow> create_req \<Rightarrow>
   (nat \<times> string) + (split_expense \<times> validated_split list \<times> id_text)" where
  "prepareExpense st userId req =
    (if requestIncomplete req
     then Inl (400, ''Missing required fields: description, totalAmount, and splits are required'')
     else
      (case parseFloat (rq_totalAmount req) of
         None \<Rightarrow> Inl (400, ''Total amount must be a positive number'')
       | Some numTotalAmount \<Rightarrow>
          if numTotalAmount \<le> 0 then Inl (400, ''Total amount must be a positive number'')
          else
            (case validateSplits st userId (case rq_splits req of None \<Rightarrow> [] | Some ss \<Rightarrow> ss) of
               Inl CastError \<Rightarrow> Inl (500, ''Failed to create split expense'')
             | Inr found \<Rightarrow>
               if found = [] then Inl (400, ''No valid friends found for this expense'')
               else
                 let validatedSplits =
                       (if splitTypeOf req = ''equal'' then equalSplit numTotalAmount found
                        else found)
                 in (case paidByUserIdOf userId req of
                       KeyText \<Rightarrow> Inl (500, ''Failed to create split expense'')
                     | KeyId paidByUserId \<Rightarrow>
                        let expense =
                          \<lparr>exp_id = nextId st,
                           exp_description =
                             trim (case rq_description req of None \<Rightarrow> [] | Some d \<Rightarrow> d),
                           totalAmount = numTotalAmount,
                           paidBy = castId paidByUserId,
                           createdBy = userId,
                           splits = map (\<lambda>split. \<lparr>sp_friendId = vs_friendId split,
                                                   sp_amount = vs_amount split\<rparr>)
                                      validatedSplits\<rparr>
                        in Inr (expense, validatedSplits, paidByUserId)))))"

type_synonym debt_error = "oid option \<times> string"
type_synonym notif_error = "oid option \<times> id_text option \<times> string"

text \<open>
  The body of the loop that creates the debts, lines 193 to 229: who is creditor and who is
  debtor for one split with a user id, and the object handed to \<^verbatim>\<open>new Debt(...)\<close>. The two
  tests compare texts: \<^verbatim>\<open>paidByUserId.toString()\<close> with the \<^verbatim>\<open>toString()\<close> of the
  requester's ObjectId and with \<^verbatim>\<open>split.userId.toString()\<close>. The schema casts creditor
  and debtor to ObjectIds.
\<close>

definition debtDataFor ::
  "oid \<Rightarrow> id_text \<Rightarrow> string \<Rightarrow> split_expense \<Rightarrow> validated_split \<Rightarrow> id_text \<Rightarrow> debt_data" where
  "debtDataFor userId paidByUserId splitType expense split splitUserId =
    (let (creditor, debtor) =
           (if paidByUserId = Canon userId then (Canon userId, splitUserId)
            else if paidByUserId = splitUserId then (splitUserId, Canon userId)
            else (paidByUserId, splitUserId))
     in \<lparr>dd_creditor = castId creditor, dd_debtor = castId debtor,
         dd_amount = vs_amount split,
         dd_description = Some (utf16 ''Split: '' @ exp_description expense),
         dd_status = Pending, dd_type = Split,
         dd_relatedExpenseId = Some (exp_id expense),
         dd_metadata = Some \<lparr>splitExpenseId = exp_id expense,
                                category = ''split_expense'',
                                originalAmount = totalAmount expense,
                                md_splitType = splitType,
                                md_notes = utf16 ''From split expense: '' @
                                           exp_description expense\<rparr>,
         dd_dueDate = None\<rparr>)"

text \<open>
  The loop that creates the debts (lines 185 to 242). A split without a user id is
  skipped; a failing write is caught, recorded under the split's \<^verbatim>\<open>friendId\<close>, and the
  loop goes on with the next split.
\<close>

fun createDebts ::
  "env \<Rightarrow> oid \<Rightarrow> id_text \<Rightarrow> string \<Rightarrow> split_expense \<Rightarrow> validated_split list \<Rightarrow> store \<Rightarrow>
   debt list \<times> debt_error list \<times> store" where
  "createDebts ev userId payer splitType expense [] st = ([], [], st)"
| "createDebts ev userId payer splitType expense (split # rest) st =
    (case vs_userId split of
       None \<Rightarrow> createDebts ev userId payer splitType expense rest st
     | Some splitUserId \<Rightarrow>
        (case newDebt ev st (debtDataFor userId payer splitType expense split splitUserId) of
           (Inr d, st1) \<Rightarrow>
             (case createDebts ev userId payer splitType expense rest st1 of
                (ds, errs, st2) \<Rightarrow> (d # ds, errs, st2))
         | (Inl e, st1) \<Rightarrow>
             (case createDebts ev userId payer splitType expense rest st1 of
                (ds, errs, st2) \<Rightarrow> (ds, (vs_friendId split, e) # errs, st2))))"

text \<open>
  The loop that notifies the participants (lines 254 to 302). The test for the requester
  compares \<^verbatim>\<open>split.userId.toString()\<close> with the \<^verbatim>\<open>toString()\<close> of the requester's ObjectId.
\<close>

fun sendNotifications ::
  "env \<Rightarrow> oid \<Rightarrow> string \<Rightarrow> split_expense \<Rightarrow> validated_split list \<Rightarrow> store \<Rightarrow>
   notification list \<times> notif_error list \<times> store" where
  "sendNotifications ev userId payerName expense [] st = ([], [], st)"
| "sendNotifications ev userId payerName expense (split # rest) st =
    (case vs_userId split of
       None \<Rightarrow> sendNotifications ev userId payerName expense rest st
     | Some splitUserId \<Rightarrow>
        if splitUserId = Canon userId
        then sendNotifications ev userId payerName expense rest st
        else
          let n = \<lparr>n_userId = castId splitUserId, n_senderId = userId,
                   n_type = ''expense_created'', n_relatedId = exp_id expense,
                   n_relatedModel = ''SplitExpense'', n_share = vs_amount split,
                   n_paidBy = payerName, n_read = False\<rparr>
          in if notifRejected ev n
             then (case sendNotifications ev userId payerName expense rest st of
                     (ns, errs, st1) \<Rightarrow>
                       (ns, (vs_friendId split, vs_userId split, ''notification error'') # errs,
                        st1))
             else (case sendNotifications ev userId payerName expense rest
                          (st\<lparr>notifications := notifications st @ [n]\<rparr>) of
                     (ns, errs, st1) \<Rightarrow> (n # ns, errs, st1)))"

record create_body =
  rb_expense :: split_expense
  debtsCreated :: nat
  notificationsSent :: nat
  rb_totalAmount :: rat
  rb_splits :: nat
  debtErrors :: "debt_error list option"
  notificationErrors :: "notif_error list option"

definition createSplitExpense ::
  "env \<Rightarrow> store \<Rightarrow> oid \<Rightarrow> create_req \<Rightarrow> create_body response \<times> store" where
  "createSplitExpense ev st userId req =
    (case prepareExpense st userId req of
       Inl (code, message) \<Rightarrow> (Fail code message, st)
     | Inr (expense, validatedSplits, paidByUserId) \<Rightarrow>
        if \<not> expenseValid expense then (Fail 500 ''Failed to create split expense'', st)
        else
          let payerName = payerNameOf st (castId paidByUserId);
              st1 = st\<lparr>expenses := expenses st @ [expense], nextId := Suc (nextId st)\<rparr>
          in (case createDebts ev userId paidByUserId (splitTypeOf req) expense
                     validatedSplits st1 of
                (createdDebts, debtErrs, st2) \<Rightarrow>
                  (case sendNotifications ev userId payerName expense validatedSplits st2 of
                     (sent, notifErrs, st3) \<Rightarrow>
                       (Success 201
                          \<lparr>rb_expense = expense,
                           debtsCreated = length createdDebts,
                           notificationsSent = length sent,
                           rb_totalAmount = totalAmount expense,
                           rb_splits = length validatedSplits,
                           debtErrors = (if debtErrs \<noteq> [] then Some debtErrs else None),
                           notificationErrors =
                             (if notifErrs \<noteq> [] then Some notifErrs else None)\<rparr>,
                        st3))))"

definition findExpense :: "store \<Rightarrow> oid \<Rightarrow> split_expense option" where
  "findExpense st i = find (\<lambda>e. exp_id e = i) (expenses st)"

definition cascade :: "date \<Rightarrow> oid \<Rightarrow> string \<Rightarrow> debt \<Rightarrow> debt" where
  \<comment> \<open>\<^verbatim>\<open>Debt.updateMany({ relatedExpenseId: expenseId, status: 'pending' }, ...)\<close> on one debt\<close>
  "cascade t expenseId newStatus d =
     (if relatedExpenseId d = Some expenseId \<and> status d = Pending
      then d\<lparr>status := (if newStatus = ''settled'' then Paid else Cancelled),
             paidAt := (if newStatus = ''settled'' then Some t else None),
             updatedAt := t\<rparr>
      else d)"

text \<open>
  \<^verbatim>\<open>updateSplitExpenseStatus\<close>. The assignments to \<^verbatim>\<open>expense.status\<close> and
  \<^verbatim>\<open>expense.settledDate\<close> set paths that the schema does not declare: \<^verbatim>\<open>expense.save()\<close>
  writes nothing and the response carries the expense as it was read.
\<close>

definition updateSplitExpenseStatus ::
  "env \<Rightarrow> store \<Rightarrow> oid \<Rightarrow> oid \<Rightarrow> string \<Rightarrow> split_expense response \<times> store" where
  "updateSplitExpenseStatus ev st userId expenseId newStatus =
    (if newStatus \<notin> set [''active'', ''settled'', ''cancelled'']
     then (Fail 400 ''Invalid status'', st)
     else
      (case findExpense st expenseId of
         None \<Rightarrow> (Fail 404 ''Expense not found'', st)
       | Some expense \<Rightarrow>
          if \<not> (createdBy expense = userId \<or> paidBy expense = userId)
          then (Fail 403 ''Not authorized to update this expense'', st)
          else
            let st1 = (if newStatus = ''settled'' \<or> newStatus = ''cancelled''
                       then st\<lparr>debts := map (cascade (now ev) expenseId newStatus) (debts st)\<rparr>
                       else st)
            in (Success 200 expense, st1)))"

section \<open>Quantities of the specification\<close>

text \<open>
  The rule table of the specification (section 4.3), written from its words: the pair
  (creditor, debtor) for a payer, the requesting account and one participant.
\<close>

definition ruleTable :: "oid \<Rightarrow> oid \<Rightarrow> oid \<Rightarrow> oid \<times> oid" where
  "ruleTable payer requester participant =
     (if payer = requester then (requester, participant)
      else if payer = participant then (participant, requester)
      else (payer, participant))"

text \<open>
  The sum of the share amounts that a request provides, the quantity which the
  specification compares with the stated total. \<^verbatim>\<open>createSplitExpense\<close> does not compute it.
\<close>

definition providedSum :: "req_split list \<Rightarrow> rat" where
  "providedSum ss = sum_list (map (\<lambda>s. case parseFloat (rs_amount s) of None \<Rightarrow> 0 | Some a \<Rightarrow> a) ss)"

text \<open>
  A debt record is the record of an object handed to \<^verbatim>\<open>new Debt(...)\<close> when it has the
  creditor, the debtor, the amount and the related expense of the object.
\<close>

definition recordOf :: "debt_data \<Rightarrow> debt \<Rightarrow> bool" where
  "recordOf dd d =
     (creditor d = dd_creditor dd \<and> debtor d = dd_debtor dd \<and>
      dd_amount dd = Some (amount d) \<and> relatedExpenseId d = dd_relatedExpenseId dd)"

text \<open>
  A request names an accepted payment method when it names none (the value is missing or
  empty) or one of the payment methods of the Debt schema.
\<close>

definition acceptedMethod :: "string option \<Rightarrow> bool" where
  "acceptedMethod pm = (case pm of None \<Rightarrow> True | Some m \<Rightarrow> m = [] \<or> m \<in> set paymentMethods)"

section \<open>Concrete scenarios\<close>

text \<open>
  A small database: the requesting user 1 with the friends A (user 2), B (user 3) and
  C (user 4), one split expense 40 with a cancelled debt, two pending debts and a paid
  debt, and a pending manual debt that user 1 owes to user 2.
\<close>

definition quiet :: env where
  "quiet = \<lparr>now = 1000, debtWriteFails = (\<lambda>d. False), notifWriteFails = (\<lambda>n. False)\<rparr>"

definition flaky :: env where
  \<comment> \<open>the storage layer refuses every new debt whose debtor is user 2\<close>
  "flaky = \<lparr>now = 1000, debtWriteFails = (\<lambda>d. debtor d = 2), notifWriteFails = (\<lambda>n. False)\<rparr>"

definition mkFriend :: "oid \<Rightarrow> oid \<Rightarrow> oid \<Rightarrow> friend" where
  "mkFriend i ownr target =
     \<lparr>friend_id = i, friend_owner = ownr, friend_status = ''active'',
      friendUser = Populated target, friend_userId = OtherText,
      friend_name = ''friend'', friend_email = ''friend@example.org''\<rparr>"

definition mkDebt :: "oid \<Rightarrow> oid \<Rightarrow> oid \<Rightarrow> rat \<Rightarrow> debt_status \<Rightarrow> debt_type \<Rightarrow> oid option \<Rightarrow> debt" where
  "mkDebt i c d a s t rel =
     \<lparr>debt_id = i, creditor = c, debtor = d, amount = a, description = utf16 ''Split: Taxi'',
      status = s, dtype = t, relatedExpenseId = rel, dueDate = None, paidAt = None,
      paymentMethod = None, metadata = None, createdAt = 900, updatedAt = 900\<rparr>"

definition taxi :: split_expense where
  "taxi = \<lparr>exp_id = 40, exp_description = utf16 ''Taxi'', totalAmount = 60, paidBy = 1,
            createdBy = 1,
            splits = [\<lparr>sp_friendId = Some 10, sp_amount = Some 20\<rparr>,
                      \<lparr>sp_friendId = Some 11, sp_amount = Some 20\<rparr>]\<rparr>"

definition demoStore :: store where
  "demoStore =
     \<lparr>users = [\<lparr>user_id = 1, user_name = ''Requester'', user_email = ''r@example.org''\<rparr>,
               \<lparr>user_id = 2, user_name = ''A'', user_email = ''a@example.org''\<rparr>,
               \<lparr>user_id = 3, user_name = ''B'', user_email = ''b@example.org''\<rparr>,
               \<lparr>user_id = 4, user_name = ''C'', user_email = ''c@example.org''\<rparr>],
      friends = [mkFriend 10 1 2, mkFriend 11 1 3, mkFriend 12 1 4],
      expenses = [taxi],
      debts = [mkDebt 50 2 1 25 Pending Manual None,
               mkDebt 51 1 4 15 Cancelled Split (Some 40),
               mkDebt 52 1 2 20 Pending Split (Some 40),
               mkDebt 53 1 3 20 Pending Split (Some 40),
               mkDebt 54 1 4 20 Paid Split (Some 40)],
      notifications = [],
      nextId = 100\<rparr>"

definition friendSplit :: "oid \<Rightarrow> js_value \<Rightarrow> req_split" where
  \<comment> \<open>a split that names the Friend document by the text of its id\<close>
  "friendSplit fid a = \<lparr>rs_friendId = Some (KeyId (Canon fid)), rs_email = None, rs_amount = a\<rparr>"

definition dinnerEqual :: create_req where
  \<comment> \<open>total 100, participants A and B, equal mode, paid by the requester\<close>
  "dinnerEqual =
     \<lparr>rq_description = Some (utf16 ''Dinner''), rq_totalAmount = JsNum 100,
      rq_paidBy = PayerAbsent,
      rq_splits = Some [friendSplit 10 JsAbsent, friendSplit 11 JsAbsent],
      rq_splitType = Some ''equal''\<rparr>"

definition dinnerOdd :: create_req where
  \<comment> \<open>as \<open>dinnerEqual\<close>, with the total 2.205\<close>
  "dinnerOdd = dinnerEqual\<lparr>rq_totalAmount := JsNum (2205 / 1000)\<rparr>"

definition explicitShares :: "req_split list" where
  \<comment> \<open>explicit shares A 30, B 30, C 20\<close>
  "explicitShares = [friendSplit 10 (JsNum 30), friendSplit 11 (JsNum 30),
                     friendSplit 12 (JsNum 20)]"

definition dinnerExplicit :: create_req where
  \<comment> \<open>total 100 with the explicit shares, which sum to 80\<close>
  "dinnerExplicit =
     \<lparr>rq_description = Some (utf16 ''Dinner''), rq_totalAmount = JsNum 100,
      rq_paidBy = PayerAbsent,
      rq_splits = Some explicitShares, rq_splitType = Some ''custom''\<rparr>"

definition dinnerPaidByA :: create_req where
  \<comment> \<open>total 90, participants A and B, equal mode, paid by A (user 2), whose id is
      spelled as \<^verbatim>\<open>toString()\<close> prints it\<close>
  "dinnerPaidByA =
     \<lparr>rq_description = Some (utf16 ''Dinner''), rq_totalAmount = JsNum 90,
      rq_paidBy = PayerId (Canon 2),
      rq_splits = Some [friendSplit 10 JsAbsent, friendSplit 11 JsAbsent],
      rq_splitType = Some ''equal''\<rparr>"

definition dinnerPaidByAUpper :: create_req where
  \<comment> \<open>the same request with the id of A spelled in upper-case hexadecimal digits\<close>
  "dinnerPaidByAUpper = dinnerPaidByA\<lparr>rq_paidBy := PayerId (Alias 2 0)\<rparr>"

definition dinnerStrangers :: create_req where
  \<comment> \<open>the friend references 98 and 99 belong to no Friend document of user 1\<close>
  "dinnerStrangers =
     \<lparr>rq_description = Some (utf16 ''Dinner''), rq_totalAmount = JsNum 100,
      rq_paidBy = PayerAbsent,
      rq_splits = Some [friendSplit 98 (JsNum 50), friendSplit 99 (JsNum 50)],
      rq_splitType = Some ''equal''\<rparr>"

definition ghostFriend :: friend where
  \<comment> \<open>the friend's account was deleted: \<^verbatim>\<open>friendUser\<close> does not populate\<close>
  "ghostFriend =
     \<lparr>friend_id = 13, friend_owner = 1, friend_status = ''active'',
      friendUser = NoRef, friend_userId = OtherText,
      friend_name = ''ghost'', friend_email = ''ghost@example.org''\<rparr>"

definition ghostStore :: store where
  "ghostStore = demoStore\<lparr>friends := friends demoStore @ [ghostFriend]\<rparr>"

definition dinnerGhost :: create_req where
  \<comment> \<open>total 100, the only participant is the friend of document 13\<close>
  "dinnerGhost =
     \<lparr>rq_description = Some (utf16 ''Dinner''), rq_totalAmount = JsNum 100,
      rq_paidBy = PayerAbsent,
      rq_splits = Some [friendSplit 13 JsAbsent], rq_splitType = Some ''equal''\<rparr>"

definition selfDebtReq :: manual_req where
  \<comment> \<open>user 1 names user 1 as the debtor\<close>
  "selfDebtReq = \<lparr>mr_debtorId = Some 1, mr_amount = JsNum 10,
                   mr_description = Some (utf16 ''lunch''), mr_dueDate = None\<rparr>"

section \<open>Rounding to a double\<close>

text \<open>
  The rounding error of \<open>fl\<close>: a positive number and its double differ by at most half
  a quantum, which is the number divided by \<open>2 ^ 53\<close> in the normal range.
\<close>

lemma roundEven_error: "\<bar>of_int (roundEven m) - m\<bar> \<le> 1 / 2"
proof -
  have lo: "of_int \<lfloor>m\<rfloor> \<le> m" by (rule of_int_floor_le)
  have hi: "m < of_int \<lfloor>m\<rfloor> + 1" by linarith
  show ?thesis using lo hi
    by (auto simp: roundEven_def Let_def abs_le_iff)
qed

lemma pow2_pos: "0 < pow2 e"
  by (simp add: pow2_def)

lemma quantum_pos: "0 < quantum x"
  by (simp add: quantum_def pow2_pos)

lemma fl_error_pos:
  assumes "0 < x"
  shows "\<bar>fl x - x\<bar> \<le> quantum x / 2"
proof -
  let ?q = "quantum x"
  have q: "0 < ?q" by (rule quantum_pos)
  have "fl x - x = (of_int (roundEven (x / ?q)) - x / ?q) * ?q"
    using assms q by (simp add: fl_def field_simps)
  then have "\<bar>fl x - x\<bar> = \<bar>of_int (roundEven (x / ?q)) - x / ?q\<bar> * ?q"
    using q by (simp add: abs_mult)
  also have "\<dots> \<le> 1 / 2 * ?q"
    using roundEven_error[of "x / ?q"] q by (intro mult_right_mono) simp_all
  finally show ?thesis by simp
qed

lemma bits_nonneg: "0 \<le> bits n"
proof (induction n rule: bits.induct)
  case (1 n)
  show ?case
  proof (cases "n \<le> 0")
    case True
    then show ?thesis by (simp add: bits.simps[of n])
  next
    case False
    with 1 have "0 \<le> bits (n div 2)" by simp
    with False show ?thesis by (simp add: bits.simps[of n])
  qed
qed

lemma bits_bounds:
  "0 < n \<Longrightarrow> 2 ^ nat (bits n - 1) \<le> n \<and> n < 2 ^ nat (bits n)"
proof (induction n rule: bits.induct)
  case (1 n)
  show ?case
  proof (cases "n = 1")
    case True
    then show ?thesis by (simp add: bits.simps[of 1] bits.simps[of 0])
  next
    case False
    with 1(2) have n2: "2 \<le> n" by simp
    then have h: "0 < n div 2" by simp
    from 1(1)[OF _ h] 1(2) have ih: "2 ^ nat (bits (n div 2) - 1) \<le> n div 2"
      "n div 2 < 2 ^ nat (bits (n div 2))" by simp_all
    have b: "bits n = 1 + bits (n div 2)" using 1(2) by (simp add: bits.simps[of n])
    have bp: "1 \<le> bits (n div 2)"
      using h bits_nonneg[of "n div 2 div 2"] by (simp add: bits.simps[of "n div 2"])
    have e: "nat (bits n - 1) = Suc (nat (bits (n div 2) - 1))" using b bp by simp
    have e2: "nat (bits n) = Suc (nat (bits (n div 2)))" using b bp by simp
    have "2 * 2 ^ nat (bits (n div 2) - 1) \<le> 2 * (n div 2)" using ih(1) by simp
    also have "\<dots> \<le> n" by simp
    finally have lo: "2 ^ nat (bits n - 1) \<le> n" unfolding e by simp
    have "n div 2 + 1 \<le> 2 ^ nat (bits (n div 2))" using ih(2) by simp
    then have "2 * (n div 2) + 2 \<le> 2 * 2 ^ nat (bits (n div 2))" by simp
    moreover have "n < 2 * (n div 2) + 2" by presburger
    ultimately have hi: "n < 2 ^ nat (bits n)" unfolding e2 by simp
    show ?thesis using lo hi by simp
  qed
qed


lemma ilog2_bounds:
  assumes "0 < x"
  shows "pow2 (ilog2 x) \<le> x \<and> x < pow2 (ilog2 x + 1)"
proof (cases "1 \<le> x")
  case True
  define n where "n = \<lfloor>x\<rfloor>"
  have n1: "1 \<le> n" unfolding n_def using True by simp
  then have n0: "0 < n" by simp
  from bits_bounds[OF n0] have lo: "2 ^ nat (bits n - 1) \<le> n" and hi: "n < 2 ^ nat (bits n)"
    by simp_all
  have bp: "1 \<le> bits n" using n0 bits_nonneg[of "n div 2"] by (simp add: bits.simps[of n])
  have il: "ilog2 x = bits n - 1" using True by (simp add: ilog2_def n_def)
  have p1: "pow2 (ilog2 x) = 2 ^ nat (bits n - 1)" using bp by (simp add: il pow2_def)
  have p2: "pow2 (ilog2 x + 1) = 2 ^ nat (bits n)" using bp by (simp add: il pow2_def)
  have "(of_int (2 ^ nat (bits n - 1)) :: rat) \<le> of_int n" using lo by (simp only: of_int_le_iff)
  also have "\<dots> \<le> x" unfolding n_def by (rule of_int_floor_le)
  finally have a: "pow2 (ilog2 x) \<le> x" unfolding p1 by simp
  have "n + 1 \<le> 2 ^ nat (bits n)" using hi by simp
  then have "(of_int (n + 1) :: rat) \<le> of_int (2 ^ nat (bits n))" by (simp only: of_int_le_iff)
  moreover have "x < of_int (n + 1)" unfolding n_def by linarith
  ultimately have b: "x < pow2 (ilog2 x + 1)" unfolding p2 by simp
  show ?thesis using a b by simp
next
  case False
  then have x1: "x < 1" by simp
  define y where "y = 1 / x"
  have y1: "1 < y" unfolding y_def using assms x1 by simp
  define c where "c = \<lceil>y\<rceil>"
  have c2: "2 \<le> c" unfolding c_def using y1 by linarith
  define n where "n = c - 1"
  have n0: "0 < n" using c2 by (simp add: n_def)
  from bits_bounds[OF n0] have lo: "2 ^ nat (bits n - 1) \<le> n" and hi: "n < 2 ^ nat (bits n)"
    by simp_all
  have bp: "1 \<le> bits n" using n0 bits_nonneg[of "n div 2"] by (simp add: bits.simps[of n])
  have il: "ilog2 x = - bits n" using False by (simp add: ilog2_def n_def c_def y_def)
  have p1: "pow2 (ilog2 x) = 1 / 2 ^ nat (bits n)" using bp by (simp add: il pow2_def)
  have p2: "pow2 (ilog2 x + 1) = 1 / 2 ^ nat (bits n - 1)"
    using bp by (cases "bits n = 1") (simp_all add: il pow2_def nat_diff_distrib)
  have cle: "c \<le> 2 ^ nat (bits n)" using hi by (simp add: n_def)
  have "y \<le> of_int c" unfolding c_def by (rule le_of_int_ceiling)
  also have "(of_int c :: rat) \<le> of_int (2 ^ nat (bits n))"
    using cle by (simp only: of_int_le_iff)
  finally have yhi: "y \<le> 2 ^ nat (bits n)" by simp
  have "(of_int (2 ^ nat (bits n - 1)) :: rat) \<le> of_int n" using lo by (simp only: of_int_le_iff)
  also have "of_int n < y" unfolding n_def c_def by linarith
  finally have ylo: "2 ^ nat (bits n - 1) < y" by simp
  have a: "pow2 (ilog2 x) \<le> x"
    unfolding p1 using yhi assms by (simp add: y_def field_simps)
  have b: "x < pow2 (ilog2 x + 1)"
    unfolding p2 using ylo assms by (simp add: y_def field_simps)
  show ?thesis using a b by simp
qed


lemma pow2_powi: "pow2 e = 2 powi e"
  by (simp add: pow2_def power_int_def field_simps power_inverse)

lemma pow2_mono: "a \<le> b \<Longrightarrow> pow2 a \<le> pow2 b"
  unfolding pow2_powi by (rule power_int_increasing) simp_all

lemma pow2_diff: "pow2 (a - b) = pow2 a / pow2 b"
  unfolding pow2_powi by (rule power_int_diff) simp

lemma fl_error:
  assumes "0 < x"
  shows "\<bar>fl x - x\<bar> \<le> max (x / 2 ^ 53) (1 / 2 ^ 1075)"
proof -
  from ilog2_bounds[OF assms] have lo: "pow2 (ilog2 x) \<le> x" by simp
  have err: "\<bar>fl x - x\<bar> \<le> quantum x / 2" using assms by (rule fl_error_pos)
  show ?thesis
  proof (cases "- 1022 \<le> ilog2 x")
    case True
    then have "quantum x = pow2 (ilog2 x - 52)" by (simp add: quantum_def max_def)
    also have "\<dots> = pow2 (ilog2 x) / 2 ^ 52" by (simp add: pow2_diff, simp add: pow2_def)
    also have "\<dots> \<le> x / 2 ^ 52" using lo by (simp add: divide_right_mono)
    finally have "quantum x / 2 \<le> x / 2 ^ 53" by simp
    with err have "\<bar>fl x - x\<bar> \<le> x / 2 ^ 53" by (rule order_trans)
    then show ?thesis by (rule max.coboundedI1)
  next
    case False
    then have "quantum x = pow2 (- 1074)" by (simp add: quantum_def max_def)
    then have "quantum x / 2 = 1 / 2 ^ 1075" by (simp add: pow2_def)
    with err have "\<bar>fl x - x\<bar> \<le> 1 / 2 ^ 1075" by (simp only:)
    then show ?thesis by (rule max.coboundedI2)
  qed
qed

section \<open>Numbers of the scenarios\<close>

text \<open>
  The doubles that the scenarios meet, computed from the definition of \<open>fl\<close>: for instance
  the double nearest to 33.33 is \<open>2345390243441541 / 2 ^ 46\<close>.
\<close>

lemma fl_values:
  "fl 100 = 100" "fl 90 = 90" "fl 50 = 50" "fl 30 = 30" "fl 20 = 20" "fl 10 = 10"
  "fl (1 / 100) = 5764607523034235 / 576460752303423488"
  "fl (100 / 3) = 4691249611844267 / 140737488355328"
  "fl (3333 / 100) = 2345390243441541 / 70368744177664"
  "fl (441 / 200) = 1241304647293993 / 562949953421312"
  "fl (1241304647293993 / 1688849860263936) = 6620291452234629 / 9007199254740992"
  "fl (73 / 100) = 1643813863990231 / 2251799813685248"
  by code_simp+

lemma toFixed2_values:
  "toFixed2 (4691249611844267 / 140737488355328) = 3333 / 100"
  "toFixed2 30 = 30"
  "toFixed2 (6620291452234629 / 9007199254740992) = 73 / 100"
  "toFixed2 (147 / 200) = 74 / 100"
  by code_simp+

lemma toFixed2_nearest:
  assumes "0 \<le> x"
  shows "\<exists>k::int. 0 \<le> k \<and> toFixed2 x = of_int k / 100 \<and>
           of_int k / 100 - 1 / 200 \<le> x \<and> x < of_int k / 100 + 1 / 200"
proof -
  define k where "k = \<lfloor>x * 100 + 1 / 2\<rfloor>"
  have tf: "toFixed2 x = of_int k / 100" using assms by (simp add: toFixed2_def k_def)
  have "0 \<le> x * 100 + 1 / 2" using assms by simp
  then have k0: "0 \<le> k" unfolding k_def by simp
  have lo: "of_int k \<le> x * 100 + 1 / 2" unfolding k_def by (rule of_int_floor_le)
  have hi: "x * 100 + 1 / 2 < of_int k + 1" unfolding k_def by linarith
  from lo have 1: "of_int k / 100 - 1 / 200 \<le> x" by (simp add: field_simps)
  from hi have 2: "x < of_int k / 100 + 1 / 200" by (simp add: field_simps)
  show ?thesis by (rule exI[of _ k]) (intro conjI k0 tf 1 2)
qed

lemma fl_nonneg: "0 \<le> x \<Longrightarrow> 0 \<le> fl x"
proof -
  assume x: "0 \<le> x"
  have q: "0 < quantum x" by (simp add: quantum_def pow2_def)
  show ?thesis
  proof (cases "x = 0")
    case True
    then show ?thesis by (simp add: fl_def)
  next
    case False
    with x have pos: "0 < x" by simp
    then have "0 \<le> x / quantum x" using q by simp
    then have "0 \<le> \<lfloor>x / quantum x\<rfloor>" by simp
    then have "0 \<le> roundEven (x / quantum x)" by (simp add: roundEven_def Let_def)
    then show ?thesis using pos q by (simp add: fl_def)
  qed
qed

section \<open>Marking a debt as paid\<close>

lemma find_debt_id: "find (\<lambda>d. debt_id d = i) xs = Some d \<Longrightarrow> debt_id d = i"
  by (induction xs) (simp_all split: if_splits)

lemma find_replace:
  "find (\<lambda>d. debt_id d = i) xs = Some d \<Longrightarrow> debt_id d' = i \<Longrightarrow>
   find (\<lambda>d. debt_id d = i) (map (\<lambda>x. if debt_id x = i then d' else x) xs) = Some d'"
  by (induction xs) (simp_all split: if_splits)

lemma findDebt_saveDebt:
  "findDebt st i = Some d \<Longrightarrow> debt_id d' = i \<Longrightarrow> findDebt (saveDebt st d') i = Some d'"
  by (simp add: findDebt_def saveDebt_def find_replace)

lemma findDebt_id: "findDebt st i = Some d \<Longrightarrow> debt_id d = i"
  unfolding findDebt_def by (rule find_debt_id)

lemma findDebt_debts: "debts st' = debts st \<Longrightarrow> findDebt st' i = findDebt st i"
  by (simp add: findDebt_def)

lemma markDebtAsPaid_found:
  "findDebt st i = Some d \<Longrightarrow>
   markDebtAsPaid ev st u (Some i) pm =
     (if debtor d \<noteq> u
      then (Fail 403 ''You are not authorized to mark this debt as paid'', st)
      else if status d = Paid
      then (Fail 400 ''This debt is already marked as paid'', st)
      else if \<not> acceptedMethod pm
      then (Fail 500 ''Failed to mark debt as paid'', st)
      else (Success 200 (d\<lparr>status := Paid, paidAt := Some (now ev),
                             paymentMethod := (if falsyStr pm then paymentMethod d else pm),
                             updatedAt := now ev\<rparr>),
            saveDebt st (d\<lparr>status := Paid, paidAt := Some (now ev),
                             paymentMethod := (if falsyStr pm then paymentMethod d else pm),
                             updatedAt := now ev\<rparr>)))"
  unfolding markDebtAsPaid_def Let_def
  by (cases pm)
     (auto simp: acceptedMethod_def falsyStr_def paymentMethodValid_def)

lemma markDebtAsPaid_missing:
  "findDebt st i = None \<Longrightarrow> markDebtAsPaid ev st u (Some i) pm = (Fail 404 ''Debt not found'', st)"
  unfolding markDebtAsPaid_def by (simp only: option.case)

text \<open>
  Claim C7, as stated, fails: the first call does not succeed for every request. The
  payment method of the request is stored in a path with an enum validator, so when user
  1, the debtor of the pending debt 50, marks it as paid with the payment method
  \<^verbatim>\<open>paypal\<close>, \<^verbatim>\<open>save()\<close> throws, the call is answered with status 500 and the debt stays
  pending.
\<close>

theorem unknown_payment_method_fails:
  "findDebt demoStore 50 = Some (mkDebt 50 2 1 25 Pending Manual None) \<and>
   status (mkDebt 50 2 1 25 Pending Manual None) = Pending \<and>
   debtor (mkDebt 50 2 1 25 Pending Manual None) = 1 \<and>
   ''paypal'' \<notin> set paymentMethods \<and>
   markDebtAsPaid quiet demoStore 1 (Some 50) (Some ''paypal'') =
     (Fail 500 ''Failed to mark debt as paid'', demoStore)"
proof -
  have found: "findDebt demoStore 50 = Some (mkDebt 50 2 1 25 Pending Manual None)"
    by (simp add: findDebt_def demoStore_def mkDebt_def)
  have no: "''paypal'' \<notin> set paymentMethods" by (simp add: paymentMethods_def)
  show ?thesis
    by (intro conjI found no, simp_all only: markDebtAsPaid_found[OF found])
       (simp_all add: mkDebt_def acceptedMethod_def paymentMethods_def)
qed

text \<open>
  Claim C7, amended. When the debtor of a pending debt invokes mark-as-paid twice, the
  first call with no payment method or with one of the payment methods of the schema,
  then the first call succeeds and stores the debt as paid; the second call, whatever
  payment method it names, is rejected with status 400 and the message that the debt is
  already marked as paid, and it returns the store it was given: no field of the debt
  record (nor anything else) changes.
\<close>

theorem mark_paid_twice:
  assumes "findDebt st i = Some d" and "status d = Pending" and "debtor d = u"
      and "acceptedMethod pm"
  shows "\<exists>d' st'. markDebtAsPaid ev st u (Some i) pm = (Success 200 d', st') \<and>
           status d' = Paid \<and> findDebt st' i = Some d' \<and>
           markDebtAsPaid ev2 st' u (Some i) pm2 =
             (Fail 400 ''This debt is already marked as paid'', st')"
proof -
  have np: "status d \<noteq> Paid" using assms(2) by simp
  define d' where "d' = d\<lparr>status := Paid, paidAt := Some (now ev),
                             paymentMethod := (if falsyStr pm then paymentMethod d else pm),
                             updatedAt := now ev\<rparr>"
  have first: "markDebtAsPaid ev st u (Some i) pm = (Success 200 d', saveDebt st d')"
    unfolding markDebtAsPaid_found[OF assms(1)] d'_def using assms(3,4) np by simp
  have id: "debt_id d' = debt_id d" and paid: "status d' = Paid" and deb: "debtor d' = debtor d"
    by (simp_all add: d'_def)
  have id': "debt_id d' = i" using id findDebt_id[OF assms(1)] by simp
  have found: "findDebt (saveDebt st d') i = Some d'"
    using assms(1) id' by (rule findDebt_saveDebt)
  have second: "markDebtAsPaid ev2 (saveDebt st d') u (Some i) pm2 =
      (Fail 400 ''This debt is already marked as paid'', saveDebt st d')"
    by (simp add: markDebtAsPaid_found[OF found] deb assms(3) paid)
  show ?thesis
    by (rule exI[of _ d'], rule exI[of _ "saveDebt st d'"]) (intro conjI first paid found second)
qed

theorem mark_paid_twice_witness:
  "findDebt demoStore 50 = Some (mkDebt 50 2 1 25 Pending Manual None) \<and>
   status (mkDebt 50 2 1 25 Pending Manual None) = Pending \<and>
   debtor (mkDebt 50 2 1 25 Pending Manual None) = 1 \<and>
   acceptedMethod (Some ''upi'') \<and>
   (\<exists>d' st'. markDebtAsPaid quiet demoStore 1 (Some 50) (Some ''upi'') = (Success 200 d', st') \<and>
      status d' = Paid \<and> findDebt st' 50 = Some d' \<and>
      markDebtAsPaid quiet st' 1 (Some 50) (Some ''paypal'') =
        (Fail 400 ''This debt is already marked as paid'', st'))"
proof -
  have h1: "findDebt demoStore 50 = Some (mkDebt 50 2 1 25 Pending Manual None)"
    by (simp add: findDebt_def demoStore_def mkDebt_def)
  have h2: "status (mkDebt 50 2 1 25 Pending Manual None) = Pending"
    and h3: "debtor (mkDebt 50 2 1 25 Pending Manual None) = 1"
    by (simp_all add: mkDebt_def)
  have h4: "acceptedMethod (Some ''upi'')" by (simp add: acceptedMethod_def paymentMethods_def)
  show ?thesis
    by (intro conjI h1 h2 h3 h4 mark_paid_twice[OF h1 h2 h3 h4])
qed

text \<open>
  Claim C10. A successful mark-as-paid call returns the debt that was found, changed in
  four fields only: the status becomes paid, \<open>paidAt\<close> and \<open>updatedAt\<close> become the time of
  the call, and \<open>paymentMethod\<close> becomes the supplied method when one is supplied (a
  non-empty text). Creditor, debtor, amount, description, type and \<open>relatedExpenseId\<close> are
  unchanged; in the store the debt with this id is replaced by the returned record and
  nothing else changes.
\<close>

theorem mark_paid_frame:
  assumes run: "markDebtAsPaid ev st u (Some i) pm = (Success c d', st')"
      and found: "findDebt st i = Some d"
  shows "d' = d\<lparr>status := Paid, paidAt := Some (now ev),
                 paymentMethod := (if falsyStr pm then paymentMethod d else pm),
                 updatedAt := now ev\<rparr> \<and>
         creditor d' = creditor d \<and> debtor d' = debtor d \<and> amount d' = amount d \<and>
         description d' = description d \<and> dtype d' = dtype d \<and>
         relatedExpenseId d' = relatedExpenseId d \<and>
         debts st' = map (\<lambda>x. if debt_id x = i then d' else x) (debts st) \<and>
         expenses st' = expenses st \<and> notifications st' = notifications st"
proof -
  have id: "debt_id d = i" using found by (rule findDebt_id)
  from run have d': "d' = d\<lparr>status := Paid, paidAt := Some (now ev),
                 paymentMethod := (if falsyStr pm then paymentMethod d else pm),
                 updatedAt := now ev\<rparr>"
    and st': "st' = saveDebt st d'"
    unfolding markDebtAsPaid_found[OF found] by (auto split: if_splits)
  show ?thesis using id d' st' by (simp add: saveDebt_def)
qed

theorem mark_paid_frame_witness:
  "markDebtAsPaid quiet demoStore 1 (Some 50) (Some ''upi'') =
     (Success 200 ((mkDebt 50 2 1 25 Paid Manual None)
                     \<lparr>paidAt := Some 1000, paymentMethod := Some ''upi'', updatedAt := 1000\<rparr>),
      demoStore\<lparr>debts := [(mkDebt 50 2 1 25 Paid Manual None)
                              \<lparr>paidAt := Some 1000, paymentMethod := Some ''upi'', updatedAt := 1000\<rparr>,
                           mkDebt 51 1 4 15 Cancelled Split (Some 40),
                           mkDebt 52 1 2 20 Pending Split (Some 40),
                           mkDebt 53 1 3 20 Pending Split (Some 40),
                           mkDebt 54 1 4 20 Paid Split (Some 40)]\<rparr>) \<and>
   findDebt demoStore 50 = Some (mkDebt 50 2 1 25 Pending Manual None) \<and>
   creditor ((mkDebt 50 2 1 25 Paid Manual None)
                     \<lparr>paidAt := Some 1000, paymentMethod := Some ''upi'', updatedAt := 1000\<rparr>) =
   creditor (mkDebt 50 2 1 25 Pending Manual None)"
proof -
  have found: "findDebt demoStore 50 = Some (mkDebt 50 2 1 25 Pending Manual None)"
    by (simp add: findDebt_def demoStore_def mkDebt_def)
  have run: "markDebtAsPaid quiet demoStore 1 (Some 50) (Some ''upi'') =
     (Success 200 ((mkDebt 50 2 1 25 Paid Manual None)
                     \<lparr>paidAt := Some 1000, paymentMethod := Some ''upi'', updatedAt := 1000\<rparr>),
      demoStore\<lparr>debts := [(mkDebt 50 2 1 25 Paid Manual None)
                              \<lparr>paidAt := Some 1000, paymentMethod := Some ''upi'', updatedAt := 1000\<rparr>,
                           mkDebt 51 1 4 15 Cancelled Split (Some 40),
                           mkDebt 52 1 2 20 Pending Split (Some 40),
                           mkDebt 53 1 3 20 Pending Split (Some 40),
                           mkDebt 54 1 4 20 Paid Split (Some 40)]\<rparr>)"
    unfolding markDebtAsPaid_found[OF found]
    by (simp add: mkDebt_def saveDebt_def demoStore_def quiet_def acceptedMethod_def
          paymentMethods_def falsyStr_def)
  from mark_paid_frame[OF run found] show ?thesis
    by (intro conjI run found) simp
qed

section \<open>Manual debts\<close>

text \<open>
  Claim C2. The specification forbids a debt whose creditor is its debtor.
  \<^verbatim>\<open>createManualDebt\<close> checks the format of \<^verbatim>\<open>debtorId\<close> and nothing else, and the schema
  has no such validator: when user 1 names user 1 as the debtor, the record is created and
  stored with creditor 1 and debtor 1.
\<close>

theorem manual_self_debt:
  "createManualDebt quiet demoStore 1 selfDebtReq =
     (Success 201
        \<lparr>debt_id = 100, creditor = 1, debtor = 1, amount = 10, description = utf16 ''lunch'',
         status = Pending, dtype = Manual, relatedExpenseId = None, dueDate = None,
         paidAt = None, paymentMethod = None, metadata = None,
         createdAt = 1000, updatedAt = 1000\<rparr>,
      demoStore\<lparr>debts := debts demoStore @
          [\<lparr>debt_id = 100, creditor = 1, debtor = 1, amount = 10, description = utf16 ''lunch'',
            status = Pending, dtype = Manual, relatedExpenseId = None, dueDate = None,
            paidAt = None, paymentMethod = None, metadata = None,
            createdAt = 1000, updatedAt = 1000\<rparr>],
         nextId := 101\<rparr>)"
  by (simp add: createManualDebt_def selfDebtReq_def newDebt_def amountValid_def
        descriptionValid_def Let_def trim_def isSpace_def utf16_def fl_values
        quiet_def demoStore_def)

section \<open>Settlement cascade\<close>

lemma cascade_not_pending:
  "relatedExpenseId (cascade t e s d) = Some e \<Longrightarrow> status (cascade t e s d) \<noteq> Pending"
  by (simp add: cascade_def split: if_splits)

lemma cascade_effect:
  "if relatedExpenseId d = Some e \<and> status d = Pending
   then status (cascade t e s d) = (if s = ''settled'' then Paid else Cancelled) \<and>
        debt_id (cascade t e s d) = debt_id d \<and>
        creditor (cascade t e s d) = creditor d \<and>
        debtor (cascade t e s d) = debtor d \<and>
        amount (cascade t e s d) = amount d \<and>
        relatedExpenseId (cascade t e s d) = Some e
   else cascade t e s d = d"
  by (simp add: cascade_def)

lemma updateSplitExpenseStatus_cascade:
  assumes exp: "findExpense st e = Some x"
      and auth: "createdBy x = u \<or> paidBy x = u"
      and s: "s = ''settled'' \<or> s = ''cancelled''"
  shows "\<exists>x' st'. updateSplitExpenseStatus ev st u e s = (Success 200 x', st') \<and>
           debts st' = map (cascade (now ev) e s) (debts st)"
  using s
proof
  assume "s = ''settled''"
  then show ?thesis using exp auth
    by (simp add: updateSplitExpenseStatus_def Let_def)
next
  assume "s = ''cancelled''"
  then show ?thesis using exp auth
    by (simp add: updateSplitExpenseStatus_def Let_def)
qed

text \<open>
  Claim C5. When the creator or the payer of a split expense sets its status to settled
  (to cancelled), the call succeeds and every debt that is linked to the expense and
  pending becomes paid (cancelled), position by position in the collection, keeping its id,
  creditor, debtor and amount; every other debt is left as it is; afterwards no debt linked
  to the expense is pending. Nothing is assumed about who the creditor or the debtor of a
  cascaded debt is: the only authorisation is the one on the expense.
\<close>

theorem settle_cascade:
  assumes exp: "findExpense st e = Some x"
      and auth: "createdBy x = u \<or> paidBy x = u"
      and s: "s = ''settled'' \<or> s = ''cancelled''"
  shows "\<exists>x' st'. updateSplitExpenseStatus ev st u e s = (Success 200 x', st') \<and>
           length (debts st') = length (debts st) \<and>
           (\<forall>k < length (debts st).
              if relatedExpenseId (debts st ! k) = Some e \<and> status (debts st ! k) = Pending
              then status (debts st' ! k) = (if s = ''settled'' then Paid else Cancelled) \<and>
                   debt_id (debts st' ! k) = debt_id (debts st ! k) \<and>
                   creditor (debts st' ! k) = creditor (debts st ! k) \<and>
                   debtor (debts st' ! k) = debtor (debts st ! k) \<and>
                   amount (debts st' ! k) = amount (debts st ! k) \<and>
                   relatedExpenseId (debts st' ! k) = Some e
              else debts st' ! k = debts st ! k) \<and>
           (\<forall>d \<in> set (debts st'). relatedExpenseId d = Some e \<longrightarrow> status d \<noteq> Pending)"
proof -
  from updateSplitExpenseStatus_cascade[OF exp auth s, of ev]
  obtain x' st' where run: "updateSplitExpenseStatus ev st u e s = (Success 200 x', st')"
    and ds: "debts st' = map (cascade (now ev) e s) (debts st)" by (elim exE conjE)
  have len: "length (debts st') = length (debts st)" by (simp add: ds)
  have each: "\<forall>k < length (debts st).
              if relatedExpenseId (debts st ! k) = Some e \<and> status (debts st ! k) = Pending
              then status (debts st' ! k) = (if s = ''settled'' then Paid else Cancelled) \<and>
                   debt_id (debts st' ! k) = debt_id (debts st ! k) \<and>
                   creditor (debts st' ! k) = creditor (debts st ! k) \<and>
                   debtor (debts st' ! k) = debtor (debts st ! k) \<and>
                   amount (debts st' ! k) = amount (debts st ! k) \<and>
                   relatedExpenseId (debts st' ! k) = Some e
              else debts st' ! k = debts st ! k"
  proof (intro allI impI)
    fix k assume "k < length (debts st)"
    then have nth: "debts st' ! k = cascade (now ev) e s (debts st ! k)"
      by (simp only: ds nth_map)
    show "if relatedExpenseId (debts st ! k) = Some e \<and> status (debts st ! k) = Pending
              then status (debts st' ! k) = (if s = ''settled'' then Paid else Cancelled) \<and>
                   debt_id (debts st' ! k) = debt_id (debts st ! k) \<and>
                   creditor (debts st' ! k) = creditor (debts st ! k) \<and>
                   debtor (debts st' ! k) = debtor (debts st ! k) \<and>
                   amount (debts st' ! k) = amount (debts st ! k) \<and>
                   relatedExpenseId (debts st' ! k) = Some e
              else debts st' ! k = debts st ! k"
      unfolding nth by (rule cascade_effect)
  qed
  have none: "\<forall>d \<in> set (debts st'). relatedExpenseId d = Some e \<longrightarrow> status d \<noteq> Pending"
  proof (intro ballI impI)
    fix d assume "d \<in> set (debts st')" and rel: "relatedExpenseId d = Some e"
    then have "d \<in> cascade (now ev) e s ` set (debts st)" by (simp only: ds set_map)
    then obtain d0 where "d = cascade (now ev) e s d0" by (rule imageE)
    with rel show "status d \<noteq> Pending" by (simp add: cascade_not_pending)
  qed
  show ?thesis
    by (rule exI[of _ x'], rule exI[of _ st']) (intro conjI run len each none)
qed

theorem settle_cascade_witness:
  "findExpense demoStore 40 = Some taxi \<and> (createdBy taxi = 1 \<or> paidBy taxi = 1) \<and>
   (''settled'' = ''settled'' \<or> ''settled'' = ''cancelled'') \<and>
   filter (\<lambda>d. relatedExpenseId d = Some 40 \<and> status d = Pending)
     (debts (snd (updateSplitExpenseStatus quiet demoStore 1 40 ''settled''))) = [] \<and>
   map status (debts (snd (updateSplitExpenseStatus quiet demoStore 1 40 ''settled''))) =
     [Pending, Cancelled, Paid, Paid, Paid] \<and>
   map status (debts (snd (updateSplitExpenseStatus quiet demoStore 1 40 ''cancelled''))) =
     [Pending, Cancelled, Cancelled, Cancelled, Paid]"
proof -
  have h1: "findExpense demoStore 40 = Some taxi"
    by (simp add: findExpense_def demoStore_def taxi_def)
  have h2: "createdBy taxi = 1 \<or> paidBy taxi = 1" by (simp add: taxi_def)
  have h3: "''settled'' = ''settled'' \<or> ''settled'' = ''cancelled''" by simp
  from settle_cascade[OF h1 h2 h3, of quiet]
  obtain x' st' where run: "updateSplitExpenseStatus quiet demoStore 1 40 ''settled'' = (Success 200 x', st')"
    and none: "\<forall>d \<in> set (debts st'). relatedExpenseId d = Some 40 \<longrightarrow> status d \<noteq> Pending"
    by blast
  have c1: "filter (\<lambda>d. relatedExpenseId d = Some 40 \<and> status d = Pending)
     (debts (snd (updateSplitExpenseStatus quiet demoStore 1 40 ''settled''))) = []"
    unfolding run using none by (simp add: filter_empty_conv)
  have ds: "debts demoStore = [mkDebt 50 2 1 25 Pending Manual None,
               mkDebt 51 1 4 15 Cancelled Split (Some 40),
               mkDebt 52 1 2 20 Pending Split (Some 40),
               mkDebt 53 1 3 20 Pending Split (Some 40),
               mkDebt 54 1 4 20 Paid Split (Some 40)]"
    by (simp add: demoStore_def)
  have c2: "map status (debts (snd (updateSplitExpenseStatus quiet demoStore 1 40 ''settled''))) =
     [Pending, Cancelled, Paid, Paid, Paid]"
    using h1 h2 by (simp add: updateSplitExpenseStatus_def Let_def ds cascade_def mkDebt_def)
  have c3: "map status (debts (snd (updateSplitExpenseStatus quiet demoStore 1 40 ''cancelled''))) =
     [Pending, Cancelled, Cancelled, Cancelled, Paid]"
    using h1 h2 by (simp add: updateSplitExpenseStatus_def Let_def ds cascade_def mkDebt_def)
  show ?thesis by (intro conjI h1 h2 h3 c1 c2 c3)
qed

section \<open>Paid and cancelled debts\<close>

lemma cascade_keeps: "status d \<noteq> Pending \<Longrightarrow> cascade t e s d = d"
  by (simp add: cascade_def)

lemma updateSplitExpenseStatus_debts:
  "debts (snd (updateSplitExpenseStatus ev st u e s)) = debts st \<or>
   debts (snd (updateSplitExpenseStatus ev st u e s)) = map (cascade (now ev) e s) (debts st)"
  by (simp add: updateSplitExpenseStatus_def Let_def split: option.splits)

lemma tryNotify_debts: "debts (tryNotify ev st u d t) = debts st"
  by (simp add: tryNotify_def Let_def split: option.splits)

lemma settleDebt_found:
  "findDebt st i = Some d \<Longrightarrow>
   settleDebt ev st u (Some i) =
     (if findUser st (creditor d) = None
      then (Fail 500 ''Failed to mark debt as paid'', st)
      else if creditor d \<noteq> u
      then (Fail 403 ''Only the creditor can mark this debt as paid'', st)
      else if status d = Paid
      then (Fail 400 ''Debt is already paid'', st)
      else (Success 200 (d\<lparr>status := Paid, paidAt := Some (now ev), updatedAt := now ev\<rparr>),
            tryNotify ev
              (saveDebt st (d\<lparr>status := Paid, paidAt := Some (now ev), updatedAt := now ev\<rparr>))
              u (d\<lparr>status := Paid, paidAt := Some (now ev), updatedAt := now ev\<rparr>)
              ''payment_received''))"
  unfolding settleDebt_def Let_def by (simp split: option.splits)

lemma cancelDebt_found:
  "findDebt st i = Some d \<Longrightarrow>
   cancelDebt ev st u (Some i) =
     (if findUser st (creditor d) = None
      then (Fail 500 ''Failed to cancel debt'', st)
      else if creditor d \<noteq> u
      then (Fail 403 ''Only the creditor can cancel this debt'', st)
      else (Success 200 (),
            tryNotify ev (saveDebt st (d\<lparr>status := Cancelled, updatedAt := now ev\<rparr>))
              u (d\<lparr>status := Cancelled, updatedAt := now ev\<rparr>) ''debt_cancelled''))"
  unfolding cancelDebt_def Let_def by (simp split: option.splits)

text \<open>
  Claim C6, as stated, fails in three places, all in \<open>demoStore\<close>, where debt 51 is
  cancelled and debt 54 is paid. Mark-as-paid and the creditor's settle operation guard
  against the status paid only: user 4, the debtor of the cancelled debt 51, marks it as
  paid, and user 1, its creditor, settles it; either call succeeds and the stored status
  goes from cancelled to paid. The creditor's cancel operation has no guard on the status:
  user 1 cancels the paid debt 54, and its stored status goes from paid to cancelled.
\<close>

theorem paid_and_cancelled_not_terminal:
  "map debt_id (debts demoStore) = [50, 51, 52, 53, 54] \<and>
   map status (debts demoStore) = [Pending, Cancelled, Pending, Pending, Paid] \<and>
   httpStatus (fst (markDebtAsPaid quiet demoStore 4 (Some 51) None)) = 200 \<and>
   map status (debts (snd (markDebtAsPaid quiet demoStore 4 (Some 51) None))) =
     [Pending, Paid, Pending, Pending, Paid] \<and>
   httpStatus (fst (settleDebt quiet demoStore 1 (Some 51))) = 200 \<and>
   map status (debts (snd (settleDebt quiet demoStore 1 (Some 51)))) =
     [Pending, Paid, Pending, Pending, Paid] \<and>
   httpStatus (fst (cancelDebt quiet demoStore 1 (Some 54))) = 200 \<and>
   map status (debts (snd (cancelDebt quiet demoStore 1 (Some 54)))) =
     [Pending, Cancelled, Pending, Pending, Cancelled]"
proof -
  have f51: "findDebt demoStore 51 = Some (mkDebt 51 1 4 15 Cancelled Split (Some 40))"
    by (simp add: findDebt_def demoStore_def mkDebt_def)
  have f54: "findDebt demoStore 54 = Some (mkDebt 54 1 4 20 Paid Split (Some 40))"
    by (simp add: findDebt_def demoStore_def mkDebt_def)
  have c0: "map debt_id (debts demoStore) = [50, 51, 52, 53, 54]"
    and c1: "map status (debts demoStore) = [Pending, Cancelled, Pending, Pending, Paid]"
    by (simp_all add: demoStore_def mkDebt_def)
  have c2: "httpStatus (fst (markDebtAsPaid quiet demoStore 4 (Some 51) None)) = 200"
    and c3: "map status (debts (snd (markDebtAsPaid quiet demoStore 4 (Some 51) None))) =
     [Pending, Paid, Pending, Pending, Paid]"
    unfolding markDebtAsPaid_found[OF f51]
    by (simp_all add: mkDebt_def saveDebt_def demoStore_def acceptedMethod_def)
  have c4: "httpStatus (fst (settleDebt quiet demoStore 1 (Some 51))) = 200"
    and c5: "map status (debts (snd (settleDebt quiet demoStore 1 (Some 51)))) =
     [Pending, Paid, Pending, Pending, Paid]"
    unfolding settleDebt_found[OF f51]
    by (simp_all add: mkDebt_def saveDebt_def demoStore_def findUser_def tryNotify_debts)
  have c6: "httpStatus (fst (cancelDebt quiet demoStore 1 (Some 54))) = 200"
    and c7: "map status (debts (snd (cancelDebt quiet demoStore 1 (Some 54)))) =
     [Pending, Cancelled, Pending, Pending, Cancelled]"
    unfolding cancelDebt_found[OF f54]
    by (simp_all add: mkDebt_def saveDebt_def demoStore_def findUser_def tryNotify_debts)
  show ?thesis by (intro conjI c0 c1 c2 c3 c4 c5 c6 c7)
qed

text \<open>
  Claim C6, amended. What holds of the three kinds of operation. A debt whose status is
  paid is not changed by mark-as-paid nor by the creditor's settle operation: either call
  is rejected and returns the store it was given. A debt whose status is cancelled is
  still cancelled after the creditor's cancel operation, whatever its outcome. The
  settlement cascade, whatever the outcome of the status update, leaves every debt that is
  not pending (paid, cancelled or disputed) exactly as it is, at its position in the
  collection. Nothing is claimed of a paid debt under the cancel operation, nor of a
  cancelled debt under mark-as-paid and settle.
\<close>

theorem terminal_states_kept:
  "(findDebt st i = Some d \<and> status d = Paid \<longrightarrow>
      (\<exists>c m. markDebtAsPaid ev st u (Some i) pm = (Fail c m, st)) \<and>
      (\<exists>c m. settleDebt ev st u (Some i) = (Fail c m, st))) \<and>
   (findDebt st j = Some x \<and> status x = Cancelled \<longrightarrow>
      (\<exists>x'. findDebt (snd (cancelDebt ev st u (Some j))) j = Some x' \<and> status x' = Cancelled)) \<and>
   length (debts (snd (updateSplitExpenseStatus ev st u' e s))) = length (debts st) \<and>
   (\<forall>k < length (debts st). status (debts st ! k) \<noteq> Pending \<longrightarrow>
      debts (snd (updateSplitExpenseStatus ev st u' e s)) ! k = debts st ! k)"
proof (intro conjI impI allI)
  assume a: "findDebt st i = Some d \<and> status d = Paid"
  then have found: "findDebt st i = Some d" and paid: "status d = Paid" by simp_all
  show "\<exists>c m. markDebtAsPaid ev st u (Some i) pm = (Fail c m, st)"
    unfolding markDebtAsPaid_found[OF found] using paid by simp
  show "\<exists>c m. settleDebt ev st u (Some i) = (Fail c m, st)"
    unfolding settleDebt_found[OF found] using paid by simp
next
  assume a: "findDebt st j = Some x \<and> status x = Cancelled"
  then have found: "findDebt st j = Some x" and canc: "status x = Cancelled" by simp_all
  have id: "debt_id x = j" using found by (rule findDebt_id)
  let ?x = "x\<lparr>status := Cancelled, updatedAt := now ev\<rparr>"
  have saved: "findDebt (tryNotify ev (saveDebt st ?x) u ?x ''debt_cancelled'') j = Some ?x"
    using findDebt_saveDebt[OF found, of ?x] id
    by (simp add: findDebt_debts[OF tryNotify_debts])
  show "\<exists>x'. findDebt (snd (cancelDebt ev st u (Some j))) j = Some x' \<and> status x' = Cancelled"
  proof (cases "findUser st (creditor x) = None \<or> creditor x \<noteq> u")
    case True
    then have "snd (cancelDebt ev st u (Some j)) = st"
      unfolding cancelDebt_found[OF found] by auto
    then show ?thesis using found canc by simp
  next
    case False
    then have "snd (cancelDebt ev st u (Some j)) =
        tryNotify ev (saveDebt st ?x) u ?x ''debt_cancelled''"
      unfolding cancelDebt_found[OF found] by auto
    then show ?thesis using saved by simp
  qed
next
  show "length (debts (snd (updateSplitExpenseStatus ev st u' e s))) = length (debts st)"
    using updateSplitExpenseStatus_debts[of ev st u' e s] by (elim disjE) simp_all
next
  fix k assume k: "k < length (debts st)" and np: "status (debts st ! k) \<noteq> Pending"
  from updateSplitExpenseStatus_debts[of ev st u' e s]
  show "debts (snd (updateSplitExpenseStatus ev st u' e s)) ! k = debts st ! k"
  proof
    assume "debts (snd (updateSplitExpenseStatus ev st u' e s)) = debts st"
    then show ?thesis by simp
  next
    assume "debts (snd (updateSplitExpenseStatus ev st u' e s)) =
              map (cascade (now ev) e s) (debts st)"
    then show ?thesis using k np by (simp add: cascade_keeps)
  qed
qed

theorem terminal_states_kept_witness:
  "findDebt demoStore 54 = Some (mkDebt 54 1 4 20 Paid Split (Some 40)) \<and>
   status (mkDebt 54 1 4 20 Paid Split (Some 40)) = Paid \<and>
   markDebtAsPaid quiet demoStore 4 (Some 54) None =
     (Fail 400 ''This debt is already marked as paid'', demoStore) \<and>
   settleDebt quiet demoStore 1 (Some 54) = (Fail 400 ''Debt is already paid'', demoStore) \<and>
   findDebt demoStore 51 = Some (mkDebt 51 1 4 15 Cancelled Split (Some 40)) \<and>
   status (mkDebt 51 1 4 15 Cancelled Split (Some 40)) = Cancelled \<and>
   map_option status (findDebt (snd (cancelDebt quiet demoStore 1 (Some 51))) 51) =
     Some Cancelled \<and>
   map status (debts demoStore) = [Pending, Cancelled, Pending, Pending, Paid] \<and>
   debts (snd (updateSplitExpenseStatus quiet demoStore 1 40 ''settled'')) ! 1 =
     mkDebt 51 1 4 15 Cancelled Split (Some 40) \<and>
   debts (snd (updateSplitExpenseStatus quiet demoStore 1 40 ''settled'')) ! 4 =
     mkDebt 54 1 4 20 Paid Split (Some 40)"
proof -
  have h1: "findDebt demoStore 54 = Some (mkDebt 54 1 4 20 Paid Split (Some 40))"
    by (simp add: findDebt_def demoStore_def mkDebt_def)
  have h2: "status (mkDebt 54 1 4 20 Paid Split (Some 40)) = Paid" by (simp add: mkDebt_def)
  have h3: "findDebt demoStore 51 = Some (mkDebt 51 1 4 15 Cancelled Split (Some 40))"
    by (simp add: findDebt_def demoStore_def mkDebt_def)
  have h4: "status (mkDebt 51 1 4 15 Cancelled Split (Some 40)) = Cancelled"
    by (simp add: mkDebt_def)
  have ds: "debts demoStore = [mkDebt 50 2 1 25 Pending Manual None,
               mkDebt 51 1 4 15 Cancelled Split (Some 40),
               mkDebt 52 1 2 20 Pending Split (Some 40),
               mkDebt 53 1 3 20 Pending Split (Some 40),
               mkDebt 54 1 4 20 Paid Split (Some 40)]"
    by (simp add: demoStore_def)
  have c0: "map status (debts demoStore) = [Pending, Cancelled, Pending, Pending, Paid]"
    unfolding ds by (simp add: mkDebt_def)
  note inst = terminal_states_kept
    [of demoStore 54 "mkDebt 54 1 4 20 Paid Split (Some 40)" quiet 4 None
        51 "mkDebt 51 1 4 15 Cancelled Split (Some 40)" 1 40 "''settled''"]
  note inst1 = terminal_states_kept
    [of demoStore 54 "mkDebt 54 1 4 20 Paid Split (Some 40)" quiet 1 None
        51 "mkDebt 51 1 4 15 Cancelled Split (Some 40)" 1 40 "''settled''"]
  from inst h1 h2 have "\<exists>c m. markDebtAsPaid quiet demoStore 4 (Some 54) None = (Fail c m, demoStore)"
    by simp
  then have c1: "markDebtAsPaid quiet demoStore 4 (Some 54) None =
     (Fail 400 ''This debt is already marked as paid'', demoStore)"
    unfolding markDebtAsPaid_found[OF h1] by (simp add: mkDebt_def)
  from inst1 h1 h2 have "\<exists>c m. settleDebt quiet demoStore 1 (Some 54) = (Fail c m, demoStore)"
    by simp
  then have c2: "settleDebt quiet demoStore 1 (Some 54) = (Fail 400 ''Debt is already paid'', demoStore)"
    unfolding settleDebt_found[OF h1] by (simp add: mkDebt_def findUser_def demoStore_def)
  from inst1 h3 h4 obtain x' where
    "findDebt (snd (cancelDebt quiet demoStore 1 (Some 51))) 51 = Some x'" "status x' = Cancelled"
    by auto
  then have c3: "map_option status (findDebt (snd (cancelDebt quiet demoStore 1 (Some 51))) 51) =
     Some Cancelled" by simp
  from inst have keep: "\<forall>k < length (debts demoStore). status (debts demoStore ! k) \<noteq> Pending \<longrightarrow>
      debts (snd (updateSplitExpenseStatus quiet demoStore 1 40 ''settled'')) ! k = debts demoStore ! k"
    by (elim conjE)
  have c4: "debts (snd (updateSplitExpenseStatus quiet demoStore 1 40 ''settled'')) ! 1 =
     mkDebt 51 1 4 15 Cancelled Split (Some 40)"
    using keep[rule_format, of 1] unfolding ds by (simp add: mkDebt_def)
  have c5: "debts (snd (updateSplitExpenseStatus quiet demoStore 1 40 ''settled'')) ! 4 =
     mkDebt 54 1 4 20 Paid Split (Some 40)"
    using keep[rule_format, of 4] unfolding ds by (simp add: mkDebt_def)
  show ?thesis by (intro conjI h1 h2 c1 c2 h3 h4 c3 c0 c4 c5)
qed

section \<open>Creating a split expense\<close>

lemmas eval_defs =
  createSplitExpense_def prepareExpense_def requestIncomplete_def falsyStr_def
  resolveFriend_def findFriend_def actualUserId_def findUser_def equalSplit_def jsDivide_def
  trim_def isSpace_def expenseValid_def splitValid_def payerNameOf_def
  paidByUserIdOf_def splitTypeOf_def debtDataFor_def newDebt_def amountValid_def
  descriptionValid_def Let_def providedSum_def push_def utf16_def
  notifRejected_def notificationValid_def notificationTypes_def relatedModels_def
  demoStore_def quiet_def flaky_def mkFriend_def mkDebt_def taxi_def friendSplit_def
  explicitShares_def fl_values toFixed2_values

lemma newDebt_Inl: "newDebt ev st dd = (Inl m, st') \<Longrightarrow> st' = st"
  by (simp add: newDebt_def Let_def split: option.splits if_splits)

lemma newDebt_Inr:
  "newDebt ev st dd = (Inr d, st') \<Longrightarrow>
     st' = st\<lparr>debts := debts st @ [d], nextId := Suc (nextId st)\<rparr> \<and>
     recordOf dd d \<and> status d = dd_status dd \<and> dtype d = dd_type dd"
  by (auto simp add: newDebt_def recordOf_def Let_def split: option.splits if_splits)

lemma newDebt_Inl_cause:
  assumes "newDebt ev st dd = (Inl m, st')"
  shows "\<not> debtDataValid dd \<or> (\<exists>d. recordOf dd d \<and> debtWriteFails ev d)"
proof (cases "debtDataValid dd")
  case False
  then show ?thesis by simp
next
  case True
  then obtain a s where a: "dd_amount dd = Some a" "amountValid (Some a)"
    and s: "dd_description dd = Some s" "descriptionValid (Some s)"
    by (auto simp: debtDataValid_def amountValid_def descriptionValid_def split: option.splits)
  let ?d = "\<lparr>debt_id = nextId st, creditor = dd_creditor dd, debtor = dd_debtor dd,
                         amount = a, description = trim s, status = dd_status dd,
                         dtype = dd_type dd, relatedExpenseId = dd_relatedExpenseId dd,
                         dueDate = dd_dueDate dd, paidAt = None, paymentMethod = None,
                         metadata = dd_metadata dd, createdAt = now ev, updatedAt = now ev\<rparr>"
  from assms a s have "debtWriteFails ev ?d"
    by (simp add: newDebt_def Let_def split: if_splits)
  moreover have "recordOf dd ?d" by (simp add: recordOf_def a)
  ultimately show ?thesis by blast
qed

lemma debtDataFor_simps:
  "dd_amount (debtDataFor u payer t e s p) = vs_amount s"
  "dd_status (debtDataFor u payer t e s p) = Pending"
  "dd_type (debtDataFor u payer t e s p) = Split"
  "dd_relatedExpenseId (debtDataFor u payer t e s p) = Some (exp_id e)"
  "dd_creditor (debtDataFor u payer t e s p) =
     (if payer = Canon u then u else if payer = p then castId p else castId payer)"
  "dd_debtor (debtDataFor u payer t e s p) =
     (if payer = Canon u then castId p else if payer = p then u else castId p)"
  by (simp_all add: debtDataFor_def Let_def)

lemma debtDataFor_canonical:
  "(dd_creditor (debtDataFor u (Canon payer) t e s (Canon p)),
    dd_debtor (debtDataFor u (Canon payer) t e s (Canon p))) = ruleTable payer u p"
  by (simp add: debtDataFor_simps ruleTable_def)

lemma createDebts_cases [consumes 1, case_names Nil Skip Made Failed]:
  assumes run: "createDebts ev u payer t e vs st = (ds, errs, st')"
    and nil: "\<And>st. P [] st [] [] st"
    and skip: "\<And>s vs st ds errs st'. vs_userId s = None \<Longrightarrow>
           createDebts ev u payer t e vs st = (ds, errs, st') \<Longrightarrow> P vs st ds errs st' \<Longrightarrow>
           P (s # vs) st ds errs st'"
    and made: "\<And>s p vs st d st1 ds errs st'. vs_userId s = Some p \<Longrightarrow>
           newDebt ev st (debtDataFor u payer t e s p) = (Inr d, st1) \<Longrightarrow>
           createDebts ev u payer t e vs st1 = (ds, errs, st') \<Longrightarrow> P vs st1 ds errs st' \<Longrightarrow>
           P (s # vs) st (d # ds) errs st'"
    and failed: "\<And>s p vs st m st1 ds errs st'. vs_userId s = Some p \<Longrightarrow>
           newDebt ev st (debtDataFor u payer t e s p) = (Inl m, st1) \<Longrightarrow>
           createDebts ev u payer t e vs st1 = (ds, errs, st') \<Longrightarrow> P vs st1 ds errs st' \<Longrightarrow>
           P (s # vs) st ds ((vs_friendId s, m) # errs) st'"
  shows "P vs st ds errs st'"
  using run
proof (induction vs arbitrary: st ds errs st')
  case Nil
  then show ?case using nil by simp
next
  case (Cons s vs)
  show ?case
  proof (cases "vs_userId s")
    case None
    with Cons.prems have rec: "createDebts ev u payer t e vs st = (ds, errs, st')" by simp
    show ?thesis by (rule skip[OF None rec Cons.IH[OF rec]])
  next
    case (Some p)
    obtain r st1 where nd: "newDebt ev st (debtDataFor u payer t e s p) = (r, st1)"
      by (cases "newDebt ev st (debtDataFor u payer t e s p)")
    obtain ds2 errs2 st2 where rec: "createDebts ev u payer t e vs st1 = (ds2, errs2, st2)"
      by (cases "createDebts ev u payer t e vs st1")
    show ?thesis
    proof (cases r)
      case (Inl m)
      with Cons.prems Some nd rec
      have eq: "ds = ds2" "errs = (vs_friendId s, m) # errs2" "st' = st2" by simp_all
      show ?thesis unfolding eq
        by (rule failed[OF Some nd[unfolded Inl] rec Cons.IH[OF rec]])
    next
      case (Inr d)
      with Cons.prems Some nd rec
      have eq: "ds = d # ds2" "errs = errs2" "st' = st2" by simp_all
      show ?thesis unfolding eq
        by (rule made[OF Some nd[unfolded Inr] rec Cons.IH[OF rec]])
    qed
  qed
qed

lemma createDebts_store:
  assumes "createDebts ev u payer t e vs st = (ds, errs, st')"
  shows "debts st' = debts st @ ds \<and> expenses st' = expenses st \<and>
     notifications st' = notifications st \<and> users st' = users st \<and> friends st' = friends st"
  using assms
proof (induction rule: createDebts_cases)
  case (Made s p vs st d st1 ds errs st')
  from newDebt_Inr[OF Made(2)] Made(4) show ?case by simp
next
  case (Failed s p vs st m st1 ds errs st')
  from newDebt_Inl[OF Failed(2)] Failed(4) show ?case by simp
qed simp_all

lemma createDebts_count:
  assumes "createDebts ev u payer t e vs st = (ds, errs, st')"
  shows "length ds + length errs = length [s \<leftarrow> vs. vs_userId s \<noteq> None]"
  using assms by (induction rule: createDebts_cases) simp_all

lemma createDebts_sound:
  assumes "createDebts ev u payer t e vs st = (ds, errs, st')"
  shows "\<forall>d\<in>set ds. \<exists>s\<in>set vs. \<exists>p. vs_userId s = Some p \<and>
            recordOf (debtDataFor u payer t e s p) d \<and> status d = Pending \<and> dtype d = Split"
  using assms
proof (induction rule: createDebts_cases)
  case (Made s p vs st d st1 ds errs st')
  from newDebt_Inr[OF Made(2)]
  have "vs_userId s = Some p \<and> recordOf (debtDataFor u payer t e s p) d \<and>
        status d = Pending \<and> dtype d = Split"
    using Made(1) by (simp add: debtDataFor_simps)
  with Made(4) show ?case by simp
qed simp_all

lemma createDebts_complete:
  assumes "createDebts ev u payer t e vs st = (ds, errs, st')"
  shows "\<forall>s\<in>set vs. \<forall>p. vs_userId s = Some p \<longrightarrow>
           (\<exists>d\<in>set ds. recordOf (debtDataFor u payer t e s p) d) \<or>
           (\<exists>m. (vs_friendId s, m) \<in> set errs)"
  using assms
proof (induction rule: createDebts_cases)
  case (Made s p vs st d st1 ds errs st')
  from newDebt_Inr[OF Made(2)] have "recordOf (debtDataFor u payer t e s p) d" by simp
  with Made(1,4) show ?case by simp
next
  case (Failed s p vs st m st1 ds errs st')
  then show ?case by (simp; blast?)
qed simp_all

lemma createDebts_continues:
  assumes "createDebts ev u payer t e vs st = (ds, errs, st')"
  shows "\<forall>s\<in>set vs. \<forall>p. vs_userId s = Some p \<longrightarrow>
           debtDataValid (debtDataFor u payer t e s p) \<longrightarrow>
           (\<forall>d. recordOf (debtDataFor u payer t e s p) d \<longrightarrow> \<not> debtWriteFails ev d) \<longrightarrow>
           (\<exists>d\<in>set ds. recordOf (debtDataFor u payer t e s p) d)"
  using assms
proof (induction rule: createDebts_cases)
  case (Made s p vs st d st1 ds errs st')
  from newDebt_Inr[OF Made(2)] have "recordOf (debtDataFor u payer t e s p) d" by simp
  with Made(1,4) show ?case by simp
next
  case (Failed s p vs st m st1 ds errs st')
  from newDebt_Inl_cause[OF Failed(2)]
  have "\<not> (debtDataValid (debtDataFor u payer t e s p) \<and>
           (\<forall>d. recordOf (debtDataFor u payer t e s p) d \<longrightarrow> \<not> debtWriteFails ev d))"
    by blast
  with Failed(1,4) show ?case by (simp; blast)
qed simp_all

lemma createDebts_errors:
  assumes "createDebts ev u payer t e vs st = (ds, errs, st')"
  shows "\<forall>x\<in>set errs. \<exists>s\<in>set vs. \<exists>p. vs_userId s = Some p \<and> vs_friendId s = fst x \<and>
           (\<not> debtDataValid (debtDataFor u payer t e s p) \<or>
            (\<exists>d. recordOf (debtDataFor u payer t e s p) d \<and> debtWriteFails ev d))"
  using assms
proof (induction rule: createDebts_cases)
  case (Failed s p vs st m st1 ds errs st')
  from newDebt_Inl_cause[OF Failed(2)] Failed(1)
  have "vs_userId s = Some p \<and> vs_friendId s = fst (vs_friendId s, m) \<and>
           (\<not> debtDataValid (debtDataFor u payer t e s p) \<or>
            (\<exists>d. recordOf (debtDataFor u payer t e s p) d \<and> debtWriteFails ev d))" by simp
  with Failed(4) show ?case by simp
qed simp_all

lemma createDebts_exact:
  assumes "createDebts ev u payer t e vs st = (ds, errs, st')" and "errs = []"
  shows "map (\<lambda>d. (creditor d, debtor d, Some (amount d))) ds =
         List.map_filter
           (\<lambda>s. map_option (\<lambda>p. (dd_creditor (debtDataFor u payer t e s p),
                                   dd_debtor (debtDataFor u payer t e s p), vs_amount s))
                  (vs_userId s)) vs"
  using assms
proof (induction rule: createDebts_cases)
  case (Made s p vs st d st1 ds errs st')
  from newDebt_Inr[OF Made(2)]
  have "creditor d = dd_creditor (debtDataFor u payer t e s p) \<and>
        debtor d = dd_debtor (debtDataFor u payer t e s p) \<and> vs_amount s = Some (amount d)"
    by (simp add: recordOf_def debtDataFor_simps(1))
  with Made(1,4,5) show ?case by (simp add: map_filter_simps)
qed (simp_all add: map_filter_simps)

lemma sendNotifications_store:
  "sendNotifications ev u pn e vs st = (ns, errs, st') \<Longrightarrow>
     debts st' = debts st \<and> expenses st' = expenses st \<and>
     notifications st' = notifications st @ ns \<and> users st' = users st \<and> friends st' = friends st"
proof (induction vs arbitrary: st ns errs st')
  case Nil
  then show ?case by simp
next
  case (Cons s vs)
  show ?case
  proof (cases "vs_userId s")
    case None
    with Cons.prems have "sendNotifications ev u pn e vs st = (ns, errs, st')" by simp
    from Cons.IH[OF this] show ?thesis .
  next
    case (Some p)
    show ?thesis
    proof (cases "p = Canon u")
      case True
      with Some Cons.prems have "sendNotifications ev u pn e vs st = (ns, errs, st')" by simp
      from Cons.IH[OF this] show ?thesis .
    next
      case False
      define n where "n = \<lparr>n_userId = castId p, n_senderId = u,
                   n_type = ''expense_created'', n_relatedId = exp_id e,
                   n_relatedModel = ''SplitExpense'', n_share = vs_amount s,
                   n_paidBy = pn, n_read = False\<rparr>"
      show ?thesis
      proof (cases "notifRejected ev n")
        case True
        obtain ns2 errs2 st2 where rec: "sendNotifications ev u pn e vs st = (ns2, errs2, st2)"
          by (cases "sendNotifications ev u pn e vs st")
        with Cons.prems Some False True have "ns = ns2" "st' = st2"
          by (simp_all add: n_def Let_def)
        with Cons.IH[OF rec] show ?thesis by simp
      next
        case nf: False
        obtain ns2 errs2 st2 where rec: "sendNotifications ev u pn e vs
              (st\<lparr>notifications := notifications st @ [n]\<rparr>) = (ns2, errs2, st2)"
          by (cases "sendNotifications ev u pn e vs (st\<lparr>notifications := notifications st @ [n]\<rparr>)")
        with Cons.prems Some False nf have "ns = n # ns2" "st' = st2"
          by (simp_all add: n_def Let_def)
        with Cons.IH[OF rec] show ?thesis by simp
      qed
    qed
  qed
qed

lemma push_Inr: "push v r = Inr vs \<Longrightarrow> \<exists>rest. r = Inr rest \<and> vs = v # rest"
  by (cases r) (simp_all add: push_def)

lemma resolveFriend_ids:
  "resolveFriend st u s fid = Inr (Some v) \<Longrightarrow> (vs_friendId v = None) = (vs_userId v = None)"
  by (auto simp: resolveFriend_def split: option.splits id_key.splits)

lemma validateSplits_ids:
  "validateSplits st u ss = Inr vs \<Longrightarrow>
   \<forall>v\<in>set vs. (vs_friendId v = None) = (vs_userId v = None)"
proof (induction ss arbitrary: vs)
  case Nil
  then show ?case by simp
next
  case (Cons s ss)
  show ?case
  proof (cases "rs_friendId s")
    case None
    show ?thesis
    proof (cases "falsyStr (rs_email s)")
      case True
      with None Cons.prems have "validateSplits st u ss = Inr vs" by simp
      then show ?thesis by (rule Cons.IH)
    next
      case False
      with None Cons.prems
      have "push \<lparr>vs_friendId = None, vs_userId = None,
                     vs_amount = parseFloat (rs_amount s), vs_email = rs_email s\<rparr>
                (validateSplits st u ss) = Inr vs" by simp
      from push_Inr[OF this] obtain rest where rest: "validateSplits st u ss = Inr rest"
        and vs: "vs = \<lparr>vs_friendId = None, vs_userId = None,
                     vs_amount = parseFloat (rs_amount s), vs_email = rs_email s\<rparr> # rest"
        by (elim exE conjE)
      from Cons.IH[OF rest] show ?thesis unfolding vs by simp
    qed
  next
    case (Some key)
    show ?thesis
    proof (cases key)
      case KeyText
      with Some Cons.prems show ?thesis by simp
    next
      case (KeyId t)
      show ?thesis
      proof (cases "resolveFriend st u s (castId t)")
        case (Inl e)
        with Some KeyId Cons.prems show ?thesis by simp
      next
        case (Inr r)
        show ?thesis
        proof (cases r)
          case None
          with Inr Some KeyId Cons.prems have "validateSplits st u ss = Inr vs" by simp
          then show ?thesis by (rule Cons.IH)
        next
          case (Some v)
          with Inr \<open>rs_friendId s = Some key\<close> KeyId Cons.prems
          have "push v (validateSplits st u ss) = Inr vs" by simp
          from push_Inr[OF this] obtain rest where rest: "validateSplits st u ss = Inr rest"
            and vs: "vs = v # rest" by (elim exE conjE)
          from resolveFriend_ids[OF Inr[unfolded Some]] Cons.IH[OF rest]
          show ?thesis unfolding vs by simp
        qed
      qed
    qed
  qed
qed

lemma equalSplit_props:
  "length (equalSplit T vs) = length vs"
  "\<forall>v\<in>set (equalSplit T vs).
      vs_amount v = Some (fl (toFixed2 (fl (T / of_nat (length vs + 1)))))"
  "map vs_userId (equalSplit T vs) = map vs_userId vs"
  "map vs_friendId (equalSplit T vs) = map vs_friendId vs"
  by (simp_all add: equalSplit_def jsDivide_def Let_def)

lemma prepareExpense_Inr:
  assumes "prepareExpense st u req = Inr (e, vs, payer)"
  shows "\<exists>T ss found. \<not> requestIncomplete req \<and> parseFloat (rq_totalAmount req) = Some T \<and>
           0 < T \<and> rq_splits req = Some ss \<and> validateSplits st u ss = Inr found \<and>
           found \<noteq> [] \<and>
           vs = (if splitTypeOf req = ''equal'' then equalSplit T found else found) \<and>
           totalAmount e = T \<and> paidByUserIdOf u req = KeyId payer \<and> paidBy e = castId payer \<and>
           createdBy e = u \<and> exp_id e = nextId st \<and>
           map sp_amount (splits e) = map vs_amount vs \<and>
           map sp_friendId (splits e) = map vs_friendId vs \<and>
           exp_description e = trim (case rq_description req of None \<Rightarrow> [] | Some d \<Rightarrow> d) \<and>
           splits e = map (\<lambda>split. \<lparr>sp_friendId = vs_friendId split,
                                     sp_amount = vs_amount split\<rparr>) vs"
  using assms
  by (auto simp: prepareExpense_def Let_def requestIncomplete_def comp_def
           split: if_splits option.splits sum.splits thrown.splits id_key.splits)

lemma createSplitExpense_run:
  assumes prep: "prepareExpense st u req = Inr (e, vs, payer)" and valid: "expenseValid e"
  obtains ds derrs st2 ns nerrs st3 where
    "createDebts ev u payer (splitTypeOf req) e vs
       (st\<lparr>expenses := expenses st @ [e], nextId := Suc (nextId st)\<rparr>) = (ds, derrs, st2)"
    "sendNotifications ev u (payerNameOf st (castId payer)) e vs st2 = (ns, nerrs, st3)"
    "createSplitExpense ev st u req =
       (Success 201
          \<lparr>rb_expense = e, debtsCreated = length ds, notificationsSent = length ns,
           rb_totalAmount = totalAmount e, rb_splits = length vs,
           debtErrors = (if derrs \<noteq> [] then Some derrs else None),
           notificationErrors = (if nerrs \<noteq> [] then Some nerrs else None)\<rparr>,
        st3)"
proof -
  obtain ds derrs st2 where d: "createDebts ev u payer (splitTypeOf req) e vs
      (st\<lparr>expenses := expenses st @ [e], nextId := Suc (nextId st)\<rparr>) = (ds, derrs, st2)"
    by (cases "createDebts ev u payer (splitTypeOf req) e vs
                 (st\<lparr>expenses := expenses st @ [e], nextId := Suc (nextId st)\<rparr>)")
  obtain ns nerrs st3 where
    n: "sendNotifications ev u (payerNameOf st (castId payer)) e vs st2 = (ns, nerrs, st3)"
    by (cases "sendNotifications ev u (payerNameOf st (castId payer)) e vs st2")
  have "createSplitExpense ev st u req =
       (Success 201
          \<lparr>rb_expense = e, debtsCreated = length ds, notificationsSent = length ns,
           rb_totalAmount = totalAmount e, rb_splits = length vs,
           debtErrors = (if derrs \<noteq> [] then Some derrs else None),
           notificationErrors = (if nerrs \<noteq> [] then Some nerrs else None)\<rparr>,
        st3)"
    unfolding createSplitExpense_def by (simp add: prep valid Let_def d n)
  with d n show ?thesis by (rule that)
qed

lemma createSplitExpense_Success:
  assumes "createSplitExpense ev st u req = (Success c body, st')"
  shows "\<exists>e vs payer. prepareExpense st u req = Inr (e, vs, payer) \<and> expenseValid e"
proof (cases "prepareExpense st u req")
  case (Inl a)
  with assms show ?thesis
    unfolding createSplitExpense_def by (simp split: prod.splits)
next
  case (Inr b)
  obtain e vs payer where b: "b = (e, vs, payer)" by (cases b)
  have "expenseValid e"
  proof (rule ccontr)
    assume "\<not> expenseValid e"
    with assms Inr b show False
      unfolding createSplitExpense_def by simp
  qed
  with Inr b show ?thesis by simp
qed

lemma createSplitExpense_Fail:
  assumes "prepareExpense st u req = Inl (c, m)"
  shows "createSplitExpense ev st u req = (Fail c m, st)"
  unfolding createSplitExpense_def by (simp add: assms)

lemma equalSplit_ids:
  "(\<forall>v\<in>set (equalSplit T xs). (vs_friendId v = None) = (vs_userId v = None)) =
   (\<forall>v\<in>set xs. (vs_friendId v = None) = (vs_userId v = None))"
  by (simp add: equalSplit_def Let_def)

lemma prepared_ids:
  assumes prep: "prepareExpense st u req = Inr (e, vs, payer)"
  shows "\<forall>v\<in>set vs. (vs_friendId v = None) = (vs_userId v = None)"
proof -
  from prepareExpense_Inr[OF prep] obtain T ss found where
    found: "validateSplits st u ss = Inr found"
    and vs: "vs = (if splitTypeOf req = ''equal'' then equalSplit T found else found)"
    by (elim exE conjE)
  show ?thesis unfolding vs using validateSplits_ids[OF found]
    by (simp add: equalSplit_ids)
qed

lemma expenseValid_friendIds:
  assumes "expenseValid e" and "map sp_friendId (splits e) = map vs_friendId vs"
  shows "\<forall>v\<in>set vs. vs_friendId v \<noteq> None"
proof -
  from assms(1) have "\<forall>s\<in>set (splits e). sp_friendId s \<noteq> None"
    by (auto simp: expenseValid_def splitValid_def list_all_iff split: option.splits)
  then have "\<forall>x\<in>set (map sp_friendId (splits e)). x \<noteq> None" by simp
  then have "\<forall>x\<in>set (map vs_friendId vs). x \<noteq> None" unfolding assms(2) .
  then show ?thesis by simp
qed

lemma sum_list_all_equal:
  "\<forall>x\<in>set xs. f x = (c::rat) \<Longrightarrow> sum_list (map f xs) = of_nat (length xs) * c"
  by (induction xs) (simp_all add: algebra_simps)

lemma validateSplits_none:
  assumes "\<forall>s\<in>set ss. case rs_friendId s of
                          Some (KeyId t) \<Rightarrow> resolveFriend st u s (castId t) = Inr None
                        | Some KeyText \<Rightarrow> False
                        | None \<Rightarrow> falsyStr (rs_email s)"
  shows "validateSplits st u ss = Inr []"
  using assms
proof (induction ss)
  case Nil
  show ?case by simp
next
  case (Cons s ss)
  then have rest: "validateSplits st u ss = Inr []" by simp
  from Cons.prems have hd: "case rs_friendId s of
                          Some (KeyId t) \<Rightarrow> resolveFriend st u s (castId t) = Inr None
                        | Some KeyText \<Rightarrow> False
                        | None \<Rightarrow> falsyStr (rs_email s)" by simp
  show ?case
  proof (cases "rs_friendId s")
    case None
    with hd rest show ?thesis by simp
  next
    case (Some key)
    with hd rest show ?thesis by (cases key) simp_all
  qed
qed

subsection \<open>Direction of the debts\<close>

text \<open>
  When the payer and the participants are given by the spelling that \<^verbatim>\<open>toString()\<close>
  prints, the loop follows the rule table: each new debt belongs to one participant with a
  user id, its amount is that participant's computed share and its creditor and debtor are
  those of the table for the payer, the requesting user and that participant; and every
  such participant has its debt or an entry in the warnings.
\<close>

lemma recordOf_canonical:
  assumes "recordOf (debtDataFor u (Canon payer) t e s (Canon p)) d"
  shows "vs_amount s = Some (amount d) \<and> (creditor d, debtor d) = ruleTable payer u p"
proof -
  from assms have "creditor d = dd_creditor (debtDataFor u (Canon payer) t e s (Canon p))"
    and "debtor d = dd_debtor (debtDataFor u (Canon payer) t e s (Canon p))"
    and "dd_amount (debtDataFor u (Canon payer) t e s (Canon p)) = Some (amount d)"
    by (simp_all add: recordOf_def)
  then show ?thesis
    using debtDataFor_canonical[of u payer t e s p] by (simp add: debtDataFor_simps(1))
qed

lemma canonical_payer_direction:
  assumes run: "createSplitExpense ev st u req = (Success c body, st')"
      and prep: "prepareExpense st u req = Inr (e, vs, Canon payer)"
      and canon: "\<forall>s\<in>set vs. \<forall>t. vs_userId s = Some t \<longrightarrow> t = Canon (castId t)"
  shows "\<exists>new. debts st' = debts st @ new \<and> length new = debtsCreated body \<and>
           paidBy e = payer \<and>
           (\<forall>d\<in>set new. \<exists>s\<in>set vs. \<exists>p. vs_userId s = Some (Canon p) \<and>
               vs_amount s = Some (amount d) \<and>
               (creditor d, debtor d) = ruleTable payer u p) \<and>
           (\<forall>s\<in>set vs. \<forall>p. vs_userId s = Some (Canon p) \<longrightarrow>
               (\<exists>d\<in>set new. vs_amount s = Some (amount d) \<and>
                   (creditor d, debtor d) = ruleTable payer u p) \<or>
               (\<exists>errs m. debtErrors body = Some errs \<and> (vs_friendId s, m) \<in> set errs))"
proof -
  from createSplitExpense_Success[OF run] prep have valid: "expenseValid e" by simp
  from createSplitExpense_run[OF prep valid, of ev]
  obtain ds derrs st2 ns nerrs st3 where
    d: "createDebts ev u (Canon payer) (splitTypeOf req) e vs
          (st\<lparr>expenses := expenses st @ [e], nextId := Suc (nextId st)\<rparr>) = (ds, derrs, st2)"
    and n: "sendNotifications ev u (payerNameOf st (castId (Canon payer))) e vs st2 =
              (ns, nerrs, st3)"
    and r: "createSplitExpense ev st u req =
       (Success 201
          \<lparr>rb_expense = e, debtsCreated = length ds, notificationsSent = length ns,
           rb_totalAmount = totalAmount e, rb_splits = length vs,
           debtErrors = (if derrs \<noteq> [] then Some derrs else None),
           notificationErrors = (if nerrs \<noteq> [] then Some nerrs else None)\<rparr>,
        st3)" .
  from run r have st3: "st' = st3"
    and dc: "debtsCreated body = length ds"
    and de: "debtErrors body = (if derrs \<noteq> [] then Some derrs else None)"
    by auto
  have 1: "debts st' = debts st @ ds"
    using createDebts_store[OF d] sendNotifications_store[OF n] by (simp add: st3)
  have 2: "length ds = debtsCreated body" by (simp add: dc)
  have 3: "paidBy e = payer"
    using prepareExpense_Inr[OF prep] by auto
  have 4: "\<forall>d\<in>set ds. \<exists>s\<in>set vs. \<exists>p. vs_userId s = Some (Canon p) \<and>
               vs_amount s = Some (amount d) \<and>
               (creditor d, debtor d) = ruleTable payer u p"
  proof
    fix x assume "x \<in> set ds"
    with createDebts_sound[OF d] obtain s t where s: "s \<in> set vs" and t: "vs_userId s = Some t"
      and rec: "recordOf (debtDataFor u (Canon payer) (splitTypeOf req) e s t) x" by blast
    from canon s t have tc: "t = Canon (castId t)" by blast
    from rec have "recordOf (debtDataFor u (Canon payer) (splitTypeOf req) e s (Canon (castId t))) x"
      using tc by simp
    from recordOf_canonical[OF this] s t tc
    show "\<exists>s\<in>set vs. \<exists>p. vs_userId s = Some (Canon p) \<and>
               vs_amount s = Some (amount x) \<and>
               (creditor x, debtor x) = ruleTable payer u p"
      by (intro bexI[of _ s] exI[of _ "castId t"]) simp_all
  qed
  have 5: "\<forall>s\<in>set vs. \<forall>p. vs_userId s = Some (Canon p) \<longrightarrow>
               (\<exists>d\<in>set ds. vs_amount s = Some (amount d) \<and>
                   (creditor d, debtor d) = ruleTable payer u p) \<or>
               (\<exists>errs m. debtErrors body = Some errs \<and> (vs_friendId s, m) \<in> set errs)"
  proof (intro ballI allI impI)
    fix s p assume s: "s \<in> set vs" and p: "vs_userId s = Some (Canon p)"
    from createDebts_complete[OF d] s p
    have "(\<exists>d\<in>set ds. recordOf (debtDataFor u (Canon payer) (splitTypeOf req) e s (Canon p)) d) \<or>
           (\<exists>m. (vs_friendId s, m) \<in> set derrs)" by blast
    then show "(\<exists>d\<in>set ds. vs_amount s = Some (amount d) \<and>
                   (creditor d, debtor d) = ruleTable payer u p) \<or>
               (\<exists>errs m. debtErrors body = Some errs \<and> (vs_friendId s, m) \<in> set errs)"
    proof
      assume "\<exists>d\<in>set ds. recordOf (debtDataFor u (Canon payer) (splitTypeOf req) e s (Canon p)) d"
      then obtain x where "x \<in> set ds"
        and "recordOf (debtDataFor u (Canon payer) (splitTypeOf req) e s (Canon p)) x" ..
      with recordOf_canonical[of u payer "splitTypeOf req" e s p x]
      have "\<exists>d\<in>set ds. vs_amount s = Some (amount d) \<and>
               (creditor d, debtor d) = ruleTable payer u p" by blast
      then show ?thesis ..
    next
      assume "\<exists>m. (vs_friendId s, m) \<in> set derrs"
      then obtain m where m: "(vs_friendId s, m) \<in> set derrs" ..
      then have "derrs \<noteq> []" by (cases derrs) simp_all
      with m have "\<exists>errs m. debtErrors body = Some errs \<and> (vs_friendId s, m) \<in> set errs"
        unfolding de by (simp add: exI[of _ m])
      then show ?thesis ..
    qed
  qed
  show ?thesis
    by (rule exI[of _ ds]) (intro conjI 1 2 3 4 5)
qed

text \<open>
  Claim C1. The rule of the specification is stated of the payer and the participant as
  accounts. The loop compares \<^verbatim>\<open>paidByUserId.toString()\<close>, the text of the request, with
  the printed ids of the requester and of the participant, so the branch depends on how
  the request spells the payer. The request \<open>dinnerPaidByAUpper\<close> of user 1 names A (user
  2) as the payer, in upper-case hexadecimal digits, with the participants A and B. The
  split event is stored with the payer 2; the payer equals the participant A, for whom the
  rule table gives creditor 2 and debtor 1, but the text equals neither printed id, the
  third branch is taken and the debt of A is stored with creditor 2 and debtor 2. The
  same request with the id spelled in lower case, \<open>dinnerPaidByA\<close>, stores creditor 2 and
  debtor 1.
\<close>

theorem payer_spelling_changes_direction:
  "rq_paidBy dinnerPaidByAUpper = PayerId (Alias 2 0) \<and> castId (Alias 2 0) = 2 \<and>
   httpStatus (fst (createSplitExpense quiet demoStore 1 dinnerPaidByAUpper)) = 201 \<and>
   paidBy (last (expenses (snd (createSplitExpense quiet demoStore 1 dinnerPaidByAUpper)))) = 2 \<and>
   map creditor (drop 5 (debts (snd (createSplitExpense quiet demoStore 1 dinnerPaidByAUpper)))) =
     [2, 2] \<and>
   map debtor (drop 5 (debts (snd (createSplitExpense quiet demoStore 1 dinnerPaidByAUpper)))) =
     [2, 3] \<and>
   [ruleTable 2 1 2, ruleTable 2 1 3] = [(2, 1), (2, 3)] \<and>
   rq_paidBy dinnerPaidByA = PayerId (Canon 2) \<and>
   map creditor (drop 5 (debts (snd (createSplitExpense quiet demoStore 1 dinnerPaidByA)))) =
     [2, 2] \<and>
   map debtor (drop 5 (debts (snd (createSplitExpense quiet demoStore 1 dinnerPaidByA)))) =
     [1, 3]"
proof -
  have "\<exists>body st'. createSplitExpense quiet demoStore 1 dinnerPaidByAUpper =
            (Success 201 body, st') \<and> paidBy (last (expenses st')) = 2 \<and>
          map creditor (drop 5 (debts st')) = [2, 2] \<and> map debtor (drop 5 (debts st')) = [2, 3]"
    by (simp add: eval_defs dinnerPaidByAUpper_def dinnerPaidByA_def)
  then obtain body st' where
    run: "createSplitExpense quiet demoStore 1 dinnerPaidByAUpper = (Success 201 body, st')"
    and up: "paidBy (last (expenses st')) = 2" "map creditor (drop 5 (debts st')) = [2, 2]"
      "map debtor (drop 5 (debts st')) = [2, 3]"
    by (elim exE conjE)
  have "\<exists>body st'. createSplitExpense quiet demoStore 1 dinnerPaidByA =
            (Success 201 body, st') \<and>
          map creditor (drop 5 (debts st')) = [2, 2] \<and> map debtor (drop 5 (debts st')) = [1, 3]"
    by (simp add: eval_defs dinnerPaidByA_def)
  then obtain body2 st2 where
    run2: "createSplitExpense quiet demoStore 1 dinnerPaidByA = (Success 201 body2, st2)"
    and low: "map creditor (drop 5 (debts st2)) = [2, 2]" "map debtor (drop 5 (debts st2)) = [1, 3]"
    by (elim exE conjE)
  show ?thesis unfolding run run2
    by (simp add: up low ruleTable_def dinnerPaidByAUpper_def dinnerPaidByA_def)
qed

subsection \<open>Equal shares\<close>

text \<open>
  Claim C3, as stated, fails: the share is not always the quotient of the total by the
  number of people, rounded to two decimals. The request \<open>dinnerOdd\<close> is in equal mode with
  the total 2.205 and the participants A and B. The total is stored as the double nearest
  to 2.205, and the share that is recorded for A and for B and is the amount of both debts
  is the double nearest to 0.73. The third of the stored total lies within half a cent of
  0.74 and more than half a cent away from 0.73 (and from the double that is stored); the
  third of the decimal 2.205 is 0.735, which \<^verbatim>\<open>toFixed(2)\<close> would print as 0.74. The code
  divides in double arithmetic, and the double quotient lies below 0.735.
\<close>

theorem equal_share_not_nearest_cent:
  "splitTypeOf dinnerOdd = ''equal'' \<and> rq_totalAmount dinnerOdd = JsNum (2205 / 1000) \<and>
   httpStatus (fst (createSplitExpense quiet demoStore 1 dinnerOdd)) = 201 \<and>
   totalAmount (last (expenses (snd (createSplitExpense quiet demoStore 1 dinnerOdd)))) =
     fl (2205 / 1000) \<and>
   map sp_amount (splits (last (expenses (snd (createSplitExpense quiet demoStore 1 dinnerOdd))))) =
     [Some (fl (73 / 100)), Some (fl (73 / 100))] \<and>
   map amount (drop 5 (debts (snd (createSplitExpense quiet demoStore 1 dinnerOdd)))) =
     [fl (73 / 100), fl (73 / 100)] \<and>
   \<bar>74 / 100 - fl (2205 / 1000) / 3\<bar> < 1 / 200 \<and>
   1 / 200 < \<bar>73 / 100 - fl (2205 / 1000) / 3\<bar> \<and>
   1 / 200 < \<bar>fl (73 / 100) - fl (2205 / 1000) / 3\<bar> \<and>
   toFixed2 (2205 / 1000 / 3) = 74 / 100 \<and>
   fl (fl (2205 / 1000) / 3) < 735 / 1000"
proof -
  have "\<exists>body st'. createSplitExpense quiet demoStore 1 dinnerOdd = (Success 201 body, st') \<and>
          totalAmount (last (expenses st')) = fl (2205 / 1000) \<and>
          map sp_amount (splits (last (expenses st'))) =
            [Some (fl (73 / 100)), Some (fl (73 / 100))] \<and>
          map amount (drop 5 (debts st')) = [fl (73 / 100), fl (73 / 100)]"
    by (simp add: eval_defs dinnerOdd_def dinnerEqual_def)
  then obtain body st' where
    run: "createSplitExpense quiet demoStore 1 dinnerOdd = (Success 201 body, st')"
    and res: "totalAmount (last (expenses st')) = fl (2205 / 1000)"
      "map sp_amount (splits (last (expenses st'))) =
            [Some (fl (73 / 100)), Some (fl (73 / 100))]"
      "map amount (drop 5 (debts st')) = [fl (73 / 100), fl (73 / 100)]"
    by (elim exE conjE)
  have h: "splitTypeOf dinnerOdd = ''equal''" "rq_totalAmount dinnerOdd = JsNum (2205 / 1000)"
    by (simp_all add: splitTypeOf_def dinnerOdd_def dinnerEqual_def)
  have num: "\<bar>74 / 100 - fl (2205 / 1000) / 3\<bar> < 1 / 200"
    "1 / 200 < \<bar>73 / 100 - fl (2205 / 1000) / 3\<bar>"
    "1 / 200 < \<bar>fl (73 / 100) - fl (2205 / 1000) / 3\<bar>"
    "toFixed2 (2205 / 1000 / 3) = 74 / 100"
    "fl (fl (2205 / 1000) / 3) < 735 / 1000"
    by (simp_all add: fl_values toFixed2_values)
  show ?thesis unfolding run
    by (intro conjI h num) (simp_all add: res)
qed

text \<open>
  Claim C3, amended. In a successful equal-mode creation with stored total \<open>T\<close>, let \<open>N\<close> be
  the number of participants that resolved to a user id and \<open>q\<close> the quotient of \<open>T\<close> by
  \<open>N + 1\<close> in double arithmetic, which differs from the exact quotient by one rounding
  error at most. Then every validated participant is a resolved one and
  there is a whole number \<open>k\<close> of cents, the multiple of 0.01 nearest to \<open>q\<close> (the larger one
  at a tie), such that every share recorded in the split event and the amount of every
  debt created is the double nearest to \<open>k / 100\<close>. The split event has \<open>N\<close> shares (none
  for the payer), and the recorded shares sum to \<open>N\<close> times that amount: what is left of
  \<open>T\<close> is the payer's share, recorded nowhere and redistributed to nobody. For \<open>T = 100\<close>
  and the participants A and B the share is 33.33 and both debts have the requester as
  creditor.
\<close>

theorem equal_split_share:
  fixes N :: nat and q :: rat
  assumes eq: "splitTypeOf req = ''equal''"
      and run: "createSplitExpense ev st u req = (Success c body, st')"
      and prep: "prepareExpense st u req = Inr (e, vs, payer)"
  defines "N \<equiv> length [s \<leftarrow> vs. vs_userId s \<noteq> None]"
      and "q \<equiv> fl (totalAmount e / of_nat (N + 1))"
  shows "parseFloat (rq_totalAmount req) = Some (totalAmount e) \<and>
         length vs = N \<and> length (splits e) = N \<and>
         \<bar>q - totalAmount e / of_nat (N + 1)\<bar> \<le>
           max (totalAmount e / of_nat (N + 1) / 2 ^ 53) (1 / 2 ^ 1075) \<and>
         (\<exists>k::int. 0 \<le> k \<and> of_int k / 100 - 1 / 200 \<le> q \<and> q < of_int k / 100 + 1 / 200 \<and>
            (\<forall>s\<in>set vs. vs_amount s = Some (fl (of_int k / 100))) \<and>
            (\<forall>s\<in>set (splits e). sp_amount s = Some (fl (of_int k / 100))) \<and>
            (\<exists>new. debts st' = debts st @ new \<and> length new = debtsCreated body \<and>
                   (\<forall>d\<in>set new. amount d = fl (of_int k / 100))) \<and>
            sum_list (map (\<lambda>s. case sp_amount s of None \<Rightarrow> 0 | Some a \<Rightarrow> a) (splits e)) =
              of_nat N * fl (of_int k / 100))"
proof -
  from createSplitExpense_Success[OF run] prep have valid: "expenseValid e" by simp
  from prepareExpense_Inr[OF prep] obtain T ss found where
    T: "parseFloat (rq_totalAmount req) = Some T" and tot: "totalAmount e = T"
    and pos: "0 < T"
    and vs0: "vs = (if splitTypeOf req = ''equal'' then equalSplit T found else found)"
    and amts: "map sp_amount (splits e) = map vs_amount vs"
    and fids: "map sp_friendId (splits e) = map vs_friendId vs"
    by (elim exE conjE)
  have vs: "vs = equalSplit T found" using vs0 eq by simp
  have len: "length vs = length found"
    unfolding vs by (rule equalSplit_props(1))
  have all_user: "\<forall>v\<in>set vs. vs_userId v \<noteq> None"
    using expenseValid_friendIds[OF valid fids] prepared_ids[OF prep] by simp
  then have filt: "[s \<leftarrow> vs. vs_userId s \<noteq> None] = vs" by simp
  have N: "N = length vs" unfolding N_def filt ..
  have q: "q = fl (T / of_nat (length found + 1))"
    unfolding q_def N len tot ..
  have Q: "0 < T / of_nat (length found + 1)" using pos by simp
  have 8: "\<bar>q - totalAmount e / of_nat (N + 1)\<bar> \<le>
           max (totalAmount e / of_nat (N + 1) / 2 ^ 53) (1 / 2 ^ 1075)"
    unfolding q_def N len tot by (rule fl_error[OF Q])
  have "0 \<le> T / of_nat (length found + 1)" using pos by simp
  then have "0 \<le> q" unfolding q by (rule fl_nonneg)
  from toFixed2_nearest[OF this] obtain k :: int where
    k0: "0 \<le> k" and tf: "toFixed2 q = of_int k / 100"
    and lo: "of_int k / 100 - 1 / 200 \<le> q" and hi: "q < of_int k / 100 + 1 / 200"
    by (elim exE conjE)
  have share: "fl (of_int k / 100) = fl (toFixed2 (fl (T / of_nat (length found + 1))))"
    by (simp only: tf[symmetric] q)
  have 1: "parseFloat (rq_totalAmount req) = Some (totalAmount e)" using T tot by simp
  have 2: "length vs = N" using N by simp
  have 3: "\<forall>s\<in>set vs. vs_amount s = Some (fl (of_int k / 100))"
    unfolding vs share by (rule equalSplit_props(2))
  have 4: "length (splits e) = N"
    using arg_cong[OF amts, of length] N by simp
  have "\<forall>x\<in>set (map vs_amount vs). x = Some (fl (of_int k / 100))" using 3 by simp
  then have "\<forall>x\<in>set (map sp_amount (splits e)). x = Some (fl (of_int k / 100))" unfolding amts .
  then have 5: "\<forall>s\<in>set (splits e). sp_amount s = Some (fl (of_int k / 100))" by simp
  from createSplitExpense_run[OF prep valid, of ev]
  obtain ds derrs st2 ns nerrs st3 where
    d: "createDebts ev u payer (splitTypeOf req) e vs
          (st\<lparr>expenses := expenses st @ [e], nextId := Suc (nextId st)\<rparr>) = (ds, derrs, st2)"
    and n: "sendNotifications ev u (payerNameOf st (castId payer)) e vs st2 = (ns, nerrs, st3)"
    and r: "createSplitExpense ev st u req =
       (Success 201
          \<lparr>rb_expense = e, debtsCreated = length ds, notificationsSent = length ns,
           rb_totalAmount = totalAmount e, rb_splits = length vs,
           debtErrors = (if derrs \<noteq> [] then Some derrs else None),
           notificationErrors = (if nerrs \<noteq> [] then Some nerrs else None)\<rparr>,
        st3)" .
  from run r have st3: "st' = st3" and dc: "debtsCreated body = length ds" by auto
  have a: "debts st' = debts st @ ds"
    using createDebts_store[OF d] sendNotifications_store[OF n] by (simp add: st3)
  have b: "\<forall>d\<in>set ds. amount d = fl (of_int k / 100)"
  proof
    fix x assume "x \<in> set ds"
    with createDebts_sound[OF d] obtain s p where "s \<in> set vs"
      and "recordOf (debtDataFor u payer (splitTypeOf req) e s p) x" by blast
    then have "s \<in> set vs" "vs_amount s = Some (amount x)"
      by (simp_all add: recordOf_def debtDataFor_simps(1))
    with 3 show "amount x = fl (of_int k / 100)" by simp
  qed
  have 6: "\<exists>new. debts st' = debts st @ new \<and> length new = debtsCreated body \<and>
                (\<forall>d\<in>set new. amount d = fl (of_int k / 100))"
    by (rule exI[of _ ds]) (intro conjI a dc[symmetric] b)
  have "sum_list (map (\<lambda>s. case sp_amount s of None \<Rightarrow> 0 | Some a \<Rightarrow> a) (splits e)) =
           of_nat (length (splits e)) * fl (of_int k / 100)"
    by (rule sum_list_all_equal) (simp add: 5)
  then have 7: "sum_list (map (\<lambda>s. case sp_amount s of None \<Rightarrow> 0 | Some a \<Rightarrow> a) (splits e)) =
           of_nat N * fl (of_int k / 100)" unfolding 4 .
  show ?thesis
    by (intro conjI 1 2 4 8, rule exI[of _ k]) (intro conjI k0 lo hi 3 5 6 7)
qed

theorem equal_split_share_witness:
  "splitTypeOf dinnerEqual = ''equal'' \<and> rq_totalAmount dinnerEqual = JsNum 100 \<and>
   3333 / 100 - 1 / 200 \<le> fl (100 / 3) \<and> fl (100 / 3) < 3333 / 100 + 1 / 200 \<and>
   (\<exists>body st' e vs payer.
      createSplitExpense quiet demoStore 1 dinnerEqual = (Success 201 body, st') \<and>
      prepareExpense demoStore 1 dinnerEqual = Inr (e, vs, payer) \<and>
      map vs_userId vs = [Some (Canon 2), Some (Canon 3)] \<and> totalAmount e = 100 \<and>
      map sp_amount (splits e) = [Some (fl (3333 / 100)), Some (fl (3333 / 100))] \<and>
      map creditor (drop 5 (debts st')) = [1, 1] \<and>
      map debtor (drop 5 (debts st')) = [2, 3] \<and>
      map amount (drop 5 (debts st')) = [fl (3333 / 100), fl (3333 / 100)] \<and>
      sum_list (map (\<lambda>s. case sp_amount s of None \<Rightarrow> 0 | Some a \<Rightarrow> a) (splits e)) =
        2 * fl (3333 / 100))"
proof -
  have h1: "splitTypeOf dinnerEqual = ''equal''" by (simp add: splitTypeOf_def dinnerEqual_def)
  have h0: "rq_totalAmount dinnerEqual = JsNum 100" by (simp add: dinnerEqual_def)
  have b: "3333 / 100 - 1 / 200 \<le> fl (100 / 3)" "fl (100 / 3) < 3333 / 100 + 1 / 200"
    by (simp_all add: fl_values)
  have "\<exists>e vs payer. prepareExpense demoStore 1 dinnerEqual = Inr (e, vs, payer) \<and>
           map vs_userId vs = [Some (Canon 2), Some (Canon 3)] \<and> totalAmount e = 100 \<and>
           map sp_amount (splits e) = [Some (fl (3333 / 100)), Some (fl (3333 / 100))]"
    by (simp add: eval_defs dinnerEqual_def)
  then obtain e vs payer where prep: "prepareExpense demoStore 1 dinnerEqual = Inr (e, vs, payer)"
    and users: "map vs_userId vs = [Some (Canon 2), Some (Canon 3)]" and tot: "totalAmount e = 100"
    and amts: "map sp_amount (splits e) = [Some (fl (3333 / 100)), Some (fl (3333 / 100))]"
    by (elim exE conjE)
  have "\<exists>body st'. createSplitExpense quiet demoStore 1 dinnerEqual = (Success 201 body, st') \<and>
          map creditor (drop 5 (debts st')) = [1, 1] \<and>
          map debtor (drop 5 (debts st')) = [2, 3] \<and>
          map amount (drop 5 (debts st')) = [fl (3333 / 100), fl (3333 / 100)]"
    by (simp add: eval_defs dinnerEqual_def)
  then obtain body st' where
    run: "createSplitExpense quiet demoStore 1 dinnerEqual = (Success 201 body, st')"
    and ds: "map creditor (drop 5 (debts st')) = [1, 1]"
      "map debtor (drop 5 (debts st')) = [2, 3]"
      "map amount (drop 5 (debts st')) = [fl (3333 / 100), fl (3333 / 100)]"
    by (elim exE conjE)
  from equal_split_share[OF h1 run prep] obtain k :: int where
    len: "length (splits e) = length [s \<leftarrow> vs. vs_userId s \<noteq> None]"
    and each: "\<forall>s\<in>set (splits e). sp_amount s = Some (fl (of_int k / 100))"
    and total: "sum_list (map (\<lambda>s. case sp_amount s of None \<Rightarrow> 0 | Some a \<Rightarrow> a) (splits e)) =
        of_nat (length [s \<leftarrow> vs. vs_userId s \<noteq> None]) * fl (of_int k / 100)"
    by (elim exE conjE)
  have two: "length (splits e) = 2"
    using arg_cong[OF amts, of length] by simp
  from two obtain s0 rest where sp: "splits e = s0 # rest" by (cases "splits e") simp_all
  with each have "sp_amount s0 = Some (fl (of_int k / 100))" by simp
  moreover from amts sp have "sp_amount s0 = Some (fl (3333 / 100))" by simp
  ultimately have k: "fl (of_int k / 100) = fl (3333 / 100)" by simp
  have sum: "sum_list (map (\<lambda>s. case sp_amount s of None \<Rightarrow> 0 | Some a \<Rightarrow> a) (splits e)) =
        2 * fl (3333 / 100)"
    using total unfolding len[symmetric] two k by simp
  have "\<exists>body st' e vs payer.
      createSplitExpense quiet demoStore 1 dinnerEqual = (Success 201 body, st') \<and>
      prepareExpense demoStore 1 dinnerEqual = Inr (e, vs, payer) \<and>
      map vs_userId vs = [Some (Canon 2), Some (Canon 3)] \<and> totalAmount e = 100 \<and>
      map sp_amount (splits e) = [Some (fl (3333 / 100)), Some (fl (3333 / 100))] \<and>
      map creditor (drop 5 (debts st')) = [1, 1] \<and>
      map debtor (drop 5 (debts st')) = [2, 3] \<and>
      map amount (drop 5 (debts st')) = [fl (3333 / 100), fl (3333 / 100)] \<and>
      sum_list (map (\<lambda>s. case sp_amount s of None \<Rightarrow> 0 | Some a \<Rightarrow> a) (splits e)) =
        2 * fl (3333 / 100)"
    using run prep users tot amts ds sum by (intro exI conjI)
  then show ?thesis by (intro conjI h1 h0 b)
qed

subsection \<open>Explicit shares\<close>

text \<open>
  Claim C4, as stated, fails: the request \<open>dinnerExplicit\<close> is in explicit mode, states the
  total 100 and provides the shares 30, 30 and 20, whose sum 80 differs from the total by
  more than 0.01; it is answered with status 201 and the split event 100 is stored with
  these shares and this total.
\<close>

theorem explicit_sum_not_checked:
  "splitTypeOf dinnerExplicit \<noteq> ''equal'' \<and>
   rq_totalAmount dinnerExplicit = JsNum 100 \<and>
   rq_splits dinnerExplicit = Some explicitShares \<and>
   providedSum explicitShares = 80 \<and>
   1 / 100 < \<bar>providedSum explicitShares - 100\<bar> \<and>
   httpStatus (fst (createSplitExpense quiet demoStore 1 dinnerExplicit)) = 201 \<and>
   map exp_id (expenses (snd (createSplitExpense quiet demoStore 1 dinnerExplicit))) = [40, 100] \<and>
   map sp_amount (splits (last (expenses (snd (createSplitExpense quiet demoStore 1 dinnerExplicit))))) =
     [Some 30, Some 30, Some 20] \<and>
   totalAmount (last (expenses (snd (createSplitExpense quiet demoStore 1 dinnerExplicit)))) = 100"
proof -
  have "\<exists>body st'. createSplitExpense quiet demoStore 1 dinnerExplicit = (Success 201 body, st') \<and>
          map exp_id (expenses st') = [40, 100] \<and>
          map sp_amount (splits (last (expenses st'))) = [Some 30, Some 30, Some 20] \<and>
          totalAmount (last (expenses st')) = 100"
    by (simp add: eval_defs dinnerExplicit_def)
  then obtain body st' where
    run: "createSplitExpense quiet demoStore 1 dinnerExplicit = (Success 201 body, st')"
    and res: "map exp_id (expenses st') = [40, 100]"
      "map sp_amount (splits (last (expenses st'))) = [Some 30, Some 30, Some 20]"
      "totalAmount (last (expenses st')) = 100"
    by (elim exE conjE)
  have h: "splitTypeOf dinnerExplicit \<noteq> ''equal''" "rq_totalAmount dinnerExplicit = JsNum 100"
    "rq_splits dinnerExplicit = Some explicitShares"
    by (simp_all add: splitTypeOf_def dinnerExplicit_def)
  have s: "providedSum explicitShares = 80"
    by (simp add: providedSum_def explicitShares_def friendSplit_def fl_values)
  have d: "1 / 100 < \<bar>providedSum explicitShares - 100\<bar>" unfolding s by simp
  show ?thesis unfolding run
    by (intro conjI h s d) (simp_all add: res)
qed

text \<open>
  Claim C4, amended. In explicit mode the provided share amounts are stored as they are and
  their sum is not compared with the total: a complete request with a positive total, a
  description that is not blank and a payer that is missing, \<^verbatim>\<open>'self'\<close> or the text of an
  ObjectId is accepted with status 201, and its split event is stored with the stated
  total and the provided shares, whenever the resolution of the participants ends without
  an exception, at least one participant is validated and every validated participant has
  a friend reference and a non-negative amount. No hypothesis relates the sum of the
  shares to the total.
\<close>

theorem explicit_shares_as_provided:
  assumes explicit: "splitTypeOf req \<noteq> ''equal''"
      and complete: "\<not> requestIncomplete req"
      and total: "parseFloat (rq_totalAmount req) = Some T" and pos: "0 < T"
      and ss: "rq_splits req = Some ss"
      and desc: "rq_description req = Some d" and nonblank: "trim d \<noteq> []"
      and payer: "rq_paidBy req \<noteq> PayerOther"
      and parts: "validateSplits st u ss = Inr vs" and nonempty: "vs \<noteq> []"
      and each: "\<forall>v\<in>set vs. vs_friendId v \<noteq> None \<and> (\<exists>a. vs_amount v = Some a \<and> 0 \<le> a)"
  shows "\<exists>body st'. createSplitExpense ev st u req = (Success 201 body, st') \<and>
           totalAmount (rb_expense body) = T \<and>
           map sp_amount (splits (rb_expense body)) = map vs_amount vs \<and>
           expenses st' = expenses st @ [rb_expense body]"
proof -
  from payer obtain p where p: "paidByUserIdOf u req = KeyId p"
    by (cases "rq_paidBy req") (simp_all add: paidByUserIdOf_def)
  have "\<exists>e. prepareExpense st u req = Inr (e, vs, p)"
    using explicit complete total pos ss parts nonempty p
    by (simp add: prepareExpense_def Let_def)
  then obtain e where prep: "prepareExpense st u req = Inr (e, vs, p)" ..
  from prepareExpense_Inr[OF prep] obtain T' where
    "parseFloat (rq_totalAmount req) = Some T'" and tot': "totalAmount e = T'"
    and amts: "map sp_amount (splits e) = map vs_amount vs"
    and de: "exp_description e = trim (case rq_description req of None \<Rightarrow> [] | Some d \<Rightarrow> d)"
    and sp: "splits e = map (\<lambda>split. \<lparr>sp_friendId = vs_friendId split,
                                     sp_amount = vs_amount split\<rparr>) vs"
    by (elim exE conjE)
  with total have tot: "totalAmount e = T" by simp
  have v1: "exp_description e \<noteq> []" using de desc nonblank by simp
  have v2: "0 \<le> totalAmount e" using tot pos by simp
  have v3: "splits e \<noteq> []" using sp nonempty by simp
  have v4: "list_all splitValid (splits e)"
    unfolding sp list_all_iff
  proof
    fix x
    assume "x \<in> set (map (\<lambda>split. \<lparr>sp_friendId = vs_friendId split,
                                     sp_amount = vs_amount split\<rparr>) vs)"
    then obtain v where v: "v \<in> set vs"
      and x: "x = \<lparr>sp_friendId = vs_friendId v, sp_amount = vs_amount v\<rparr>"
      by auto
    from each v obtain f a where "vs_friendId v = Some f" "vs_amount v = Some a" "0 \<le> a" by auto
    then show "splitValid x" by (simp add: x splitValid_def)
  qed
  have valid: "expenseValid e" unfolding expenseValid_def by (intro conjI v1 v2 v3 v4)
  from createSplitExpense_run[OF prep valid, of ev]
  obtain ds derrs st2 ns nerrs st3 where
    d: "createDebts ev u p (splitTypeOf req) e vs
          (st\<lparr>expenses := expenses st @ [e], nextId := Suc (nextId st)\<rparr>) = (ds, derrs, st2)"
    and n: "sendNotifications ev u (payerNameOf st (castId p)) e vs st2 = (ns, nerrs, st3)"
    and r: "createSplitExpense ev st u req =
       (Success 201
          \<lparr>rb_expense = e, debtsCreated = length ds, notificationsSent = length ns,
           rb_totalAmount = totalAmount e, rb_splits = length vs,
           debtErrors = (if derrs \<noteq> [] then Some derrs else None),
           notificationErrors = (if nerrs \<noteq> [] then Some nerrs else None)\<rparr>,
        st3)" .
  let ?body = "\<lparr>rb_expense = e, debtsCreated = length ds, notificationsSent = length ns,
           rb_totalAmount = totalAmount e, rb_splits = length vs,
           debtErrors = (if derrs \<noteq> [] then Some derrs else None),
           notificationErrors = (if nerrs \<noteq> [] then Some nerrs else None)\<rparr>"
  have 1: "totalAmount (rb_expense ?body) = T" using tot by simp
  have 2: "map sp_amount (splits (rb_expense ?body)) = map vs_amount vs"
    using amts by simp
  have 3: "expenses st3 = expenses st @ [rb_expense ?body]"
    using createDebts_store[OF d] sendNotifications_store[OF n] by simp
  show ?thesis
    by (rule exI[of _ ?body], rule exI[of _ st3]) (intro conjI r 1 2 3)
qed

theorem explicit_shares_as_provided_witness:
  "splitTypeOf dinnerExplicit \<noteq> ''equal'' \<and> \<not> requestIncomplete dinnerExplicit \<and>
   parseFloat (rq_totalAmount dinnerExplicit) = Some 100 \<and> (0::rat) < 100 \<and>
   rq_splits dinnerExplicit = Some explicitShares \<and>
   rq_description dinnerExplicit = Some (utf16 ''Dinner'') \<and> trim (utf16 ''Dinner'') \<noteq> [] \<and>
   rq_paidBy dinnerExplicit \<noteq> PayerOther \<and>
   (\<exists>vs. validateSplits demoStore 1 explicitShares = Inr vs \<and>
      map vs_amount vs = [Some 30, Some 30, Some 20] \<and>
      map vs_friendId vs = [Some 10, Some 11, Some 12] \<and>
      (\<exists>body st'. createSplitExpense quiet demoStore 1 dinnerExplicit = (Success 201 body, st') \<and>
           totalAmount (rb_expense body) = 100 \<and>
           map sp_amount (splits (rb_expense body)) = map vs_amount vs \<and>
           expenses st' = expenses demoStore @ [rb_expense body]))"
proof -
  have h1: "splitTypeOf dinnerExplicit \<noteq> ''equal''"
    by (simp add: splitTypeOf_def dinnerExplicit_def)
  have h2: "\<not> requestIncomplete dinnerExplicit"
    by (simp add: requestIncomplete_def dinnerExplicit_def falsyStr_def explicitShares_def
          utf16_def fl_values)
  have h3: "parseFloat (rq_totalAmount dinnerExplicit) = Some 100"
    by (simp add: dinnerExplicit_def fl_values)
  have h4: "(0::rat) < 100" by simp
  have h5: "rq_splits dinnerExplicit = Some explicitShares" by (simp add: dinnerExplicit_def)
  have h6: "rq_description dinnerExplicit = Some (utf16 ''Dinner'')"
    by (simp add: dinnerExplicit_def)
  have h7: "trim (utf16 ''Dinner'') \<noteq> []" by (simp add: trim_def isSpace_def utf16_def)
  have hp: "rq_paidBy dinnerExplicit \<noteq> PayerOther" by (simp add: dinnerExplicit_def)
  let ?vs = "[\<lparr>vs_friendId = Some 10, vs_userId = Some (Canon 2), vs_amount = Some 30,
         vs_email = Some ''friend@example.org''\<rparr>,
       \<lparr>vs_friendId = Some 11, vs_userId = Some (Canon 3), vs_amount = Some 30,
         vs_email = Some ''friend@example.org''\<rparr>,
       \<lparr>vs_friendId = Some 12, vs_userId = Some (Canon 4), vs_amount = Some 20,
         vs_email = Some ''friend@example.org''\<rparr>]"
  have vs: "validateSplits demoStore 1 explicitShares = Inr ?vs"
    by (simp add: eval_defs)
  have h8: "?vs \<noteq> []" by simp
  have h9: "\<forall>v\<in>set ?vs. vs_friendId v \<noteq> None \<and> (\<exists>a. vs_amount v = Some a \<and> 0 \<le> a)"
    by simp
  have c1: "map vs_amount ?vs = [Some 30, Some 30, Some 20]"
    and c2: "map vs_friendId ?vs = [Some 10, Some 11, Some 12]"
    by simp_all
  have inner: "\<exists>vs. validateSplits demoStore 1 explicitShares = Inr vs \<and>
      map vs_amount vs = [Some 30, Some 30, Some 20] \<and>
      map vs_friendId vs = [Some 10, Some 11, Some 12] \<and>
      (\<exists>body st'. createSplitExpense quiet demoStore 1 dinnerExplicit = (Success 201 body, st') \<and>
           totalAmount (rb_expense body) = 100 \<and>
           map sp_amount (splits (rb_expense body)) = map vs_amount vs \<and>
           expenses st' = expenses demoStore @ [rb_expense body])"
    by (rule exI[of _ ?vs])
       (intro conjI vs c1 c2 explicit_shares_as_provided[OF h1 h2 h3 h4 h5 h6 h7 hp vs h8 h9])
  show ?thesis by (intro conjI h1 h2 h3 h4 h5 h6 h7 hp inner)
qed

subsection \<open>No valid participant\<close>

text \<open>
  When the resolution loop finishes without a validated participant, the request is
  rejected with status 400 before anything is written.
\<close>

lemma none_validated_rejected:
  assumes complete: "\<not> requestIncomplete req"
      and total: "parseFloat (rq_totalAmount req) = Some T" and pos: "0 < T"
      and ss: "rq_splits req = Some ss"
      and unresolved: "\<forall>s\<in>set ss. case rs_friendId s of
                          Some (KeyId t) \<Rightarrow> resolveFriend st u s (castId t) = Inr None
                        | Some KeyText \<Rightarrow> False
                        | None \<Rightarrow> falsyStr (rs_email s)"
  shows "createSplitExpense ev st u req =
           (Fail 400 ''No valid friends found for this expense'', st)"
proof -
  have "validateSplits st u ss = Inr []" using unresolved by (rule validateSplits_none)
  then have "prepareExpense st u req = Inl (400, ''No valid friends found for this expense'')"
    using complete total pos ss by (simp add: prepareExpense_def)
  then show ?thesis by (rule createSplitExpense_Fail)
qed

lemma strangers_rejected:
  "createSplitExpense quiet demoStore 1 dinnerStrangers =
     (Fail 400 ''No valid friends found for this expense'', demoStore)"
proof -
  have h1: "\<not> requestIncomplete dinnerStrangers"
    by (simp add: requestIncomplete_def dinnerStrangers_def falsyStr_def utf16_def fl_values)
  have h2: "parseFloat (rq_totalAmount dinnerStrangers) = Some 100"
    by (simp add: dinnerStrangers_def fl_values)
  have h3: "(0::rat) < 100" by simp
  have h4: "rq_splits dinnerStrangers = Some [friendSplit 98 (JsNum 50), friendSplit 99 (JsNum 50)]"
    by (simp add: dinnerStrangers_def)
  have h5: "\<forall>s\<in>set [friendSplit 98 (JsNum 50), friendSplit 99 (JsNum 50)].
              case rs_friendId s of
                Some (KeyId t) \<Rightarrow> resolveFriend demoStore 1 s (castId t) = Inr None
              | Some KeyText \<Rightarrow> False
              | None \<Rightarrow> falsyStr (rs_email s)"
    by (simp add: friendSplit_def resolveFriend_def findFriend_def demoStore_def mkFriend_def)
  show ?thesis by (rule none_validated_rejected[OF h1 h2 h3 h4 h5])
qed

text \<open>
  Claim C8. The specification answers a request none of whose participants resolves to a
  live account with the validation error 400 (no valid participants). In \<open>ghostStore\<close> the
  active Friend document 13 of user 1 points to a user that no longer exists, so
  \<^verbatim>\<open>populate\<close> leaves \<^verbatim>\<open>friendUser\<close> empty; method 3 then takes the document's \<^verbatim>\<open>userId\<close>
  text, which is not an ObjectId, and \<^verbatim>\<open>User.findById\<close> throws. The request that names
  this friend as its only participant is answered with status 500 and the message of the
  outer \<^verbatim>\<open>catch\<close>, not with status 400; nothing is written.
\<close>

theorem dangling_friend_status_500:
  "\<not> requestIncomplete dinnerGhost \<and>
   parseFloat (rq_totalAmount dinnerGhost) = Some 100 \<and>
   rq_splits dinnerGhost = Some [friendSplit 13 JsAbsent] \<and>
   findFriend ghostStore 1 13 = Some ghostFriend \<and>
   friendUser ghostFriend = NoRef \<and> friend_userId ghostFriend = OtherText \<and>
   resolveFriend ghostStore 1 (friendSplit 13 JsAbsent) 13 = Inl CastError \<and>
   createSplitExpense quiet ghostStore 1 dinnerGhost =
     (Fail 500 ''Failed to create split expense'', ghostStore)"
  by (simp add: eval_defs dinnerGhost_def ghostStore_def ghostFriend_def)

subsection \<open>Partial failure\<close>

text \<open>
  Claim C9. Once the expense document has passed \<open>save()\<close>, the response is status 201
  whatever writes of debts and notifications the storage layer refuses. The split event is
  stored and the debts that were created are appended to the collection. The loop reaches
  every participant with a user id, whatever happened to the participants before it: the
  created debts and the recorded errors together count these participants; each of them
  has its debt or an error entry under its friend reference; a participant whose debt
  object is valid and whose record the storage layer does not refuse has its debt; and
  every error entry belongs to a participant whose own debt object is invalid or whose own
  record the storage layer refused. The warnings are the recorded errors, absent when
  there are none.
\<close>

theorem partial_failure_continues:
  assumes prep: "prepareExpense st u req = Inr (e, vs, payer)" and valid: "expenseValid e"
  shows "\<exists>body st' new errs.
           createSplitExpense ev st u req = (Success 201 body, st') \<and>
           rb_expense body = e \<and> expenses st' = expenses st @ [e] \<and>
           debts st' = debts st @ new \<and> debtsCreated body = length new \<and>
           debtErrors body = (if errs = [] then None else Some errs) \<and>
           length new + length errs = length [s \<leftarrow> vs. vs_userId s \<noteq> None] \<and>
           (\<forall>s\<in>set vs. \<forall>p. vs_userId s = Some p \<longrightarrow>
               (\<exists>d\<in>set new. recordOf (debtDataFor u payer (splitTypeOf req) e s p) d) \<or>
               (\<exists>m. (vs_friendId s, m) \<in> set errs)) \<and>
           (\<forall>s\<in>set vs. \<forall>p. vs_userId s = Some p \<longrightarrow>
               debtDataValid (debtDataFor u payer (splitTypeOf req) e s p) \<longrightarrow>
               (\<forall>d. recordOf (debtDataFor u payer (splitTypeOf req) e s p) d \<longrightarrow>
                      \<not> debtWriteFails ev d) \<longrightarrow>
               (\<exists>d\<in>set new. recordOf (debtDataFor u payer (splitTypeOf req) e s p) d)) \<and>
           (\<forall>x\<in>set errs. \<exists>s\<in>set vs. \<exists>p. vs_userId s = Some p \<and> vs_friendId s = fst x \<and>
               (\<not> debtDataValid (debtDataFor u payer (splitTypeOf req) e s p) \<or>
                (\<exists>d. recordOf (debtDataFor u payer (splitTypeOf req) e s p) d \<and>
                      debtWriteFails ev d)))"
proof -
  from createSplitExpense_run[OF prep valid, of ev]
  obtain ds derrs st2 ns nerrs st3 where
    d: "createDebts ev u payer (splitTypeOf req) e vs
          (st\<lparr>expenses := expenses st @ [e], nextId := Suc (nextId st)\<rparr>) = (ds, derrs, st2)"
    and n: "sendNotifications ev u (payerNameOf st (castId payer)) e vs st2 = (ns, nerrs, st3)"
    and r: "createSplitExpense ev st u req =
       (Success 201
          \<lparr>rb_expense = e, debtsCreated = length ds, notificationsSent = length ns,
           rb_totalAmount = totalAmount e, rb_splits = length vs,
           debtErrors = (if derrs \<noteq> [] then Some derrs else None),
           notificationErrors = (if nerrs \<noteq> [] then Some nerrs else None)\<rparr>,
        st3)" .
  let ?body = "\<lparr>rb_expense = e, debtsCreated = length ds, notificationsSent = length ns,
           rb_totalAmount = totalAmount e, rb_splits = length vs,
           debtErrors = (if derrs \<noteq> [] then Some derrs else None),
           notificationErrors = (if nerrs \<noteq> [] then Some nerrs else None)\<rparr>"
  have 1: "rb_expense ?body = e" by simp
  have 2: "expenses st3 = expenses st @ [e]"
    using createDebts_store[OF d] sendNotifications_store[OF n] by simp
  have 3: "debts st3 = debts st @ ds"
    using createDebts_store[OF d] sendNotifications_store[OF n] by simp
  have 4: "debtsCreated ?body = length ds" by simp
  have 5: "debtErrors ?body = (if derrs = [] then None else Some derrs)" by simp
  note 6 = createDebts_count[OF d]
  note 7 = createDebts_complete[OF d]
  note 8 = createDebts_continues[OF d]
  note 9 = createDebts_errors[OF d]
  show ?thesis
    by (rule exI[of _ ?body], rule exI[of _ st3], rule exI[of _ ds], rule exI[of _ derrs])
       (intro conjI r 1 2 3 4 5 6 7 8 9)
qed

theorem partial_failure_continues_witness:
  "(\<exists>e vs payer. prepareExpense demoStore 1 dinnerEqual = Inr (e, vs, payer) \<and>
      expenseValid e \<and> map vs_friendId vs = [Some 10, Some 11] \<and>
      map vs_userId vs = [Some (Canon 2), Some (Canon 3)]) \<and>
   debtWriteFails flaky (mkDebt 101 1 2 (fl (3333 / 100)) Pending Split (Some 100)) \<and>
   httpStatus (fst (createSplitExpense flaky demoStore 1 dinnerEqual)) = 201 \<and>
   map exp_id (expenses (snd (createSplitExpense flaky demoStore 1 dinnerEqual))) = [40, 100] \<and>
   map debt_id (drop 5 (debts (snd (createSplitExpense flaky demoStore 1 dinnerEqual)))) = [101] \<and>
   map creditor (drop 5 (debts (snd (createSplitExpense flaky demoStore 1 dinnerEqual)))) = [1] \<and>
   map debtor (drop 5 (debts (snd (createSplitExpense flaky demoStore 1 dinnerEqual)))) = [3] \<and>
   map amount (drop 5 (debts (snd (createSplitExpense flaky demoStore 1 dinnerEqual)))) =
     [fl (3333 / 100)] \<and>
   (\<exists>body st'. createSplitExpense flaky demoStore 1 dinnerEqual = (Success 201 body, st') \<and>
      debtsCreated body = 1 \<and> debtErrors body = Some [(Some 10, ''storage error'')])"
proof -
  have "\<exists>e vs payer. prepareExpense demoStore 1 dinnerEqual = Inr (e, vs, payer) \<and>
      expenseValid e \<and> map vs_friendId vs = [Some 10, Some 11] \<and>
      map vs_userId vs = [Some (Canon 2), Some (Canon 3)]"
    by (simp add: eval_defs dinnerEqual_def)
  then obtain e vs payer where prep: "prepareExpense demoStore 1 dinnerEqual = Inr (e, vs, payer)"
    and valid: "expenseValid e" and ids: "map vs_friendId vs = [Some 10, Some 11]"
      "map vs_userId vs = [Some (Canon 2), Some (Canon 3)]" by (elim exE conjE)
  from partial_failure_continues[OF prep valid, of flaky]
  obtain body st' where run: "createSplitExpense flaky demoStore 1 dinnerEqual = (Success 201 body, st')"
    by (elim exE conjE)
  have c0: "\<exists>e vs payer. prepareExpense demoStore 1 dinnerEqual = Inr (e, vs, payer) \<and>
      expenseValid e \<and> map vs_friendId vs = [Some 10, Some 11] \<and>
      map vs_userId vs = [Some (Canon 2), Some (Canon 3)]"
    using prep valid ids by (intro exI conjI)
  have cf: "debtWriteFails flaky (mkDebt 101 1 2 (fl (3333 / 100)) Pending Split (Some 100))"
    by (simp add: flaky_def mkDebt_def)
  have c1: "httpStatus (fst (createSplitExpense flaky demoStore 1 dinnerEqual)) = 201"
    unfolding run by simp
  have "\<exists>body st'. createSplitExpense flaky demoStore 1 dinnerEqual = (Success 201 body, st') \<and>
      map exp_id (expenses st') = [40, 100] \<and>
      map debt_id (drop 5 (debts st')) = [101] \<and>
      map creditor (drop 5 (debts st')) = [1] \<and>
      map debtor (drop 5 (debts st')) = [3] \<and>
      map amount (drop 5 (debts st')) = [fl (3333 / 100)] \<and>
      debtsCreated body = 1 \<and> debtErrors body = Some [(Some 10, ''storage error'')]"
    by (simp add: eval_defs dinnerEqual_def)
  then obtain body2 st2 where
    run2: "createSplitExpense flaky demoStore 1 dinnerEqual = (Success 201 body2, st2)"
    and res: "map exp_id (expenses st2) = [40, 100]"
      "map debt_id (drop 5 (debts st2)) = [101]"
      "map creditor (drop 5 (debts st2)) = [1]"
      "map debtor (drop 5 (debts st2)) = [3]"
      "map amount (drop 5 (debts st2)) = [fl (3333 / 100)]"
    and body: "debtsCreated body2 = 1" "debtErrors body2 = Some [(Some 10, ''storage error'')]"
    by (elim exE conjE)
  have c4: "\<exists>body st'. createSplitExpense flaky demoStore 1 dinnerEqual = (Success 201 body, st') \<and>
      debtsCreated body = 1 \<and> debtErrors body = Some [(Some 10, ''storage error'')]"
    using run2 body by (intro exI conjI)
  have c2: "map exp_id (expenses (snd (createSplitExpense flaky demoStore 1 dinnerEqual))) = [40, 100]"
    "map debt_id (drop 5 (debts (snd (createSplitExpense flaky demoStore 1 dinnerEqual)))) = [101]"
    "map creditor (drop 5 (debts (snd (createSplitExpense flaky demoStore 1 dinnerEqual)))) = [1]"
    "map debtor (drop 5 (debts (snd (createSplitExpense flaky demoStore 1 dinnerEqual)))) = [3]"
    "map amount (drop 5 (debts (snd (createSplitExpense flaky demoStore 1 dinnerEqual)))) =
       [fl (3333 / 100)]"
    unfolding run2 snd_conv by (rule res)+
  show ?thesis
    by (intro conjI c0 cf c1 c2 c4)
qed

end
